theory Spec2Isabelle
  imports Main "HOL-Library.Sublist"
begin

section \<open>Exceptions\<close>

text \<open>
  Every \<^verbatim>\<open>raise\<close> of the sources is a value of this type; a function that can raise
  returns \<open>exn + 'a\<close>, with \<open>Inl\<close> for the exception. \<^verbatim>\<open>RuntimeError\<close> is what the
  interpreter raises when the nesting of calls passes its recursion limit.
\<close>

datatype exn =
    StandardError string
  | IndexError
  | TypeError
  | RuntimeError
  | IdentError string nat
  | PologyError string
  | CatalogSyntaxError string

section \<open>Python strings\<close>

text \<open>
  Where the code looks into a text, the text is the list of its characters and a character
  is its code point: a number below 256 in a byte string, any code point in a unicode
  string. The string literals of the sources are ASCII; \<open>lit\<close> gives their code points.
\<close>

definition cp :: "char \<Rightarrow> nat" where
  "cp c = of_char c"

definition lit :: "string \<Rightarrow> nat list" where
  "lit s = map cp s"

text \<open>
  \<^verbatim>\<open>isalpha\<close>, \<^verbatim>\<open>isalnum\<close>, \<^verbatim>\<open>isspace\<close>, \<^verbatim>\<open>upper\<close>, \<^verbatim>\<open>lower\<close> and the class
  \<^verbatim>\<open>\w\<close> of the \<^verbatim>\<open>re\<close> module are not code of this repository but of the interpreter,
  and they are not the same for a byte string and a unicode string, nor under every
  locale and version. They are the parameter \<open>ct\<close> of every function that calls them:
  on a unicode string \<^verbatim>\<open>isalpha\<close> is true of every letter of the Unicode database, on a
  byte string in the C locale of the ASCII letters only. \<^verbatim>\<open>upper\<close> and \<^verbatim>\<open>lower\<close> are
  given for one character and may return several (\<^verbatim>\<open>"\xdf".upper()\<close> is \<^verbatim>\<open>"SS"\<close> in
  Python 3). \<^verbatim>\<open>\d\<close> is within \<^verbatim>\<open>\w\<close> in every case.
\<close>

record ctype =
  isalpha :: "nat \<Rightarrow> bool"
  isalnum :: "nat \<Rightarrow> bool"
  isspace :: "nat \<Rightarrow> bool"
  isword :: "nat \<Rightarrow> bool"
  upper :: "nat \<Rightarrow> nat list"
  lower :: "nat \<Rightarrow> nat list"

text \<open>The classes of a byte string in the C locale.\<close>

definition ascii_isalpha :: "nat \<Rightarrow> bool" where
  "ascii_isalpha c = ((65 \<le> c \<and> c \<le> 90) \<or> (97 \<le> c \<and> c \<le> 122))"

definition ascii_isdigit :: "nat \<Rightarrow> bool" where
  "ascii_isdigit c = (48 \<le> c \<and> c \<le> 57)"

definition ascii_ctype :: ctype where
  "ascii_ctype =
     \<lparr>isalpha = ascii_isalpha,
      isalnum = (\<lambda>c. ascii_isalpha c \<or> ascii_isdigit c),
      isspace = (\<lambda>c. c = 32 \<or> (9 \<le> c \<and> c \<le> 13)),
      isword = (\<lambda>c. ascii_isalpha c \<or> ascii_isdigit c \<or> c = 95),
      upper = (\<lambda>c. if 97 \<le> c \<and> c \<le> 122 then [c - 32] else [c]),
      lower = (\<lambda>c. if 65 \<le> c \<and> c \<le> 90 then [c + 32] else [c])\<rparr>"

text \<open>
  What every variant has in common: on the printable ASCII characters (32 to 126) the
  classes are those of ASCII.
\<close>

definition ascii_at :: "ctype \<Rightarrow> nat \<Rightarrow> bool" where
  "ascii_at ct c =
     (isalpha ct c = isalpha ascii_ctype c \<and> isalnum ct c = isalnum ascii_ctype c
      \<and> isspace ct c = isspace ascii_ctype c \<and> isword ct c = isword ascii_ctype c
      \<and> upper ct c = upper ascii_ctype c \<and> lower ct c = lower ascii_ctype c)"

definition ascii_compatible :: "ctype \<Rightarrow> bool" where
  "ascii_compatible ct = list_all (ascii_at ct) [32..<127]"

text \<open>\<^verbatim>\<open>s.isalnum()\<close> on a string: false on the empty string.\<close>

definition str_isalnum :: "ctype \<Rightarrow> nat list \<Rightarrow> bool" where
  "str_isalnum ct s = (s \<noteq> [] \<and> list_all (isalnum ct) s)"

definition lstrip :: "ctype \<Rightarrow> nat list \<Rightarrow> nat list" where
  "lstrip ct s = dropWhile (isspace ct) s"

definition rstrip :: "ctype \<Rightarrow> nat list \<Rightarrow> nat list" where
  "rstrip ct s = rev (dropWhile (isspace ct) (rev s))"

definition strip :: "ctype \<Rightarrow> nat list \<Rightarrow> nat list" where
  "strip ct s = lstrip ct (rstrip ct s)"

text \<open>
  \<^verbatim>\<open>s.find(sub, start)\<close> for \<open>start \<ge> 0\<close>: the least index \<open>i \<ge> start\<close> at which
  \<open>sub\<close> occurs, \<open>None\<close> for Python's \<open>-1\<close>. The empty string occurs at every index up
  to the length.
\<close>

fun find_pre :: "'a list \<Rightarrow> 'a list \<Rightarrow> nat option" where
  "find_pre sub [] = (if sub = [] then Some 0 else None)"
| "find_pre sub (c # cs) =
     (if prefix sub (c # cs) then Some 0 else map_option Suc (find_pre sub cs))"

definition py_find :: "'a list \<Rightarrow> 'a list \<Rightarrow> nat \<Rightarrow> nat option" where
  "py_find s sub start =
     (if length s < start then None
      else map_option (\<lambda>i. i + start) (find_pre sub (drop start s)))"

text \<open>\<^verbatim>\<open>xs[a:b]\<close> for \<open>0 \<le> a\<close>, \<open>0 \<le> b\<close>: out-of-range bounds are clamped.\<close>

definition slice :: "'a list \<Rightarrow> nat \<Rightarrow> nat \<Rightarrow> 'a list" where
  "slice xs a b = take (b - a) (drop a xs)"

text \<open>\<^verbatim>\<open>xs[i]\<close>: a negative index counts from the end, \<open>None\<close> is \<^verbatim>\<open>IndexError\<close>.\<close>

definition py_index :: "'a list \<Rightarrow> int \<Rightarrow> 'a option" where
  "py_index xs i =
     (if 0 \<le> i \<and> i < int (length xs) then Some (xs ! nat i)
      else if i < 0 \<and> - int (length xs) \<le> i then Some (xs ! nat (int (length xs) + i))
      else None)"



section \<open>Message entries (file/message.py)\<close>

text \<open>
  The instance variables of \<^verbatim>\<open>Message_base\<close>, with the three pieces of state the
  catalog keeps on every entry (\<^verbatim>\<open>_lines_all\<close>, \<^verbatim>\<open>_committed\<close>,
  \<^verbatim>\<open>_remove_on_sync\<close>) and the top modification counter. The record is extensible:
  what a subclass adds (per-field counters, per-field line caches) lives in the
  \<open>more\<close> part, and every function below is written over \<open>'a message_scheme\<close>.
\<close>

record message =
  manual_comment :: "string list"
  auto_comment :: "string list"
  source :: "(string \<times> int) list"
  flag :: "string set"
  obsolete :: bool
  msgctxt_previous :: "string option"
  msgid_previous :: "string option"
  msgid_plural_previous :: "string option"
  msgctxt :: "string option"
  msgid :: string
  msgid_plural :: "string option"
  msgstr :: "string list"
  refline :: int
  refentry :: int
  modcount :: nat
  lines_all :: "string list"
  committed :: bool
  remove_on_sync :: bool

subsection \<open>Monitored assignment\<close>

text \<open>
  Modelled from the spec: the monitored containers of \<^verbatim>\<open>pology.misc.monitored\<close>
  (\<^verbatim>\<open>Monitored\<close>, \<^verbatim>\<open>Monlist\<close>, \<^verbatim>\<open>Monset\<close>) are not among the sources. The spec
  gives each a modification counter "incremented on value-changing assignment
  (equality-compared against the prior value)", and changes of a container used as a
  message attribute reach the owning entry's counter. \<open>bump\<close> is that increment of the
  entry's top counter.
\<close>

definition bump :: "bool \<Rightarrow> 'a message_scheme \<Rightarrow> 'a message_scheme" where
  "bump changed m = (if changed then m\<lparr>modcount := modcount m + 1\<rparr> else m)"

definition set_msgctxt_previous :: "string option \<Rightarrow> 'a message_scheme \<Rightarrow> 'a message_scheme" where
  "set_msgctxt_previous v m = bump (msgctxt_previous m \<noteq> v) (m\<lparr>msgctxt_previous := v\<rparr>)"

definition set_msgid_previous :: "string option \<Rightarrow> 'a message_scheme \<Rightarrow> 'a message_scheme" where
  "set_msgid_previous v m = bump (msgid_previous m \<noteq> v) (m\<lparr>msgid_previous := v\<rparr>)"

definition set_msgid_plural_previous :: "string option \<Rightarrow> 'a message_scheme \<Rightarrow> 'a message_scheme" where
  "set_msgid_plural_previous v m =
     bump (msgid_plural_previous m \<noteq> v) (m\<lparr>msgid_plural_previous := v\<rparr>)"

definition set_msgid_plural :: "string option \<Rightarrow> 'a message_scheme \<Rightarrow> 'a message_scheme" where
  "set_msgid_plural v m = bump (msgid_plural m \<noteq> v) (m\<lparr>msgid_plural := v\<rparr>)"

definition flag_add :: "string \<Rightarrow> 'a message_scheme \<Rightarrow> 'a message_scheme" where
  "flag_add f m = bump (f \<notin> flag m) (m\<lparr>flag := insert f (flag m)\<rparr>)"

definition flag_remove :: "string \<Rightarrow> 'a message_scheme \<Rightarrow> 'a message_scheme" where
  "flag_remove f m = bump (f \<in> flag m) (m\<lparr>flag := flag m - {f}\<rparr>)"

subsection \<open>Derived attributes: \<^verbatim>\<open>__getattr__\<close>\<close>

text \<open>
  \<^verbatim>\<open>
  elif att == "fuzzy":
      return u"fuzzy" in self.flag
  elif att == "translated":
      if self.fuzzy:
          return False
      for val in self.msgstr:
          if val:
              return True
      return False
  elif att == "untranslated":
      if self.fuzzy:
          return False
      for val in self.msgstr:
          if val:
              return False
      return True
  \<close>
  The two loops are written as the recursions they are: the first returns at the first
  non-empty element, the second too, with the opposite answer.
\<close>

definition fuzzy :: "'a message_scheme \<Rightarrow> bool" where
  "fuzzy m = (''fuzzy'' \<in> flag m)"

fun some_translated :: "string list \<Rightarrow> bool" where
  "some_translated [] = False"
| "some_translated (val # vals) = (if val \<noteq> [] then True else some_translated vals)"

fun none_translated :: "string list \<Rightarrow> bool" where
  "none_translated [] = True"
| "none_translated (val # vals) = (if val \<noteq> [] then False else none_translated vals)"

definition translated :: "'a message_scheme \<Rightarrow> bool" where
  "translated m = (if fuzzy m then False else some_translated (msgstr m))"

definition untranslated :: "'a message_scheme \<Rightarrow> bool" where
  "untranslated m = (if fuzzy m then False else none_translated (msgstr m))"

text \<open>
  \<^verbatim>\<open>_compose\<close> on the two key fields: \<^verbatim>\<open>None\<close> is the one-character string
  \<^verbatim>\<open>"\x00"\<close>, and the field values are joined by \<^verbatim>\<open>"\x04"\<close>.
\<close>

definition compose_field :: "string option \<Rightarrow> string" where
  "compose_field val = (case val of None \<Rightarrow> [CHR 0x00] | Some s \<Rightarrow> s)"

definition key :: "'a message_scheme \<Rightarrow> string" where
  "key m = compose_field (msgctxt m) @ [CHR 0x04] @ msgid m"

subsection \<open>Assignment to \<^verbatim>\<open>fuzzy\<close>: \<^verbatim>\<open>__setattr__\<close>\<close>

text \<open>
  \<^verbatim>\<open>
  elif att == "fuzzy":
      if val == True:
          self.flag.add(u"fuzzy")
      else:
          if u"fuzzy" in self.flag:
              self.flag.remove(u"fuzzy")
          self.msgctxt_previous = None
          self.msgid_previous = None
          self.msgid_plural_previous = None
  \<close>
\<close>

definition set_fuzzy :: "bool \<Rightarrow> 'a message_scheme \<Rightarrow> 'a message_scheme" where
  "set_fuzzy val m =
     (if val then flag_add ''fuzzy'' m
      else
        (let m1 = (if ''fuzzy'' \<in> flag m then flag_remove ''fuzzy'' m else m);
             m2 = set_msgctxt_previous None m1;
             m3 = set_msgid_previous None m2
         in set_msgid_plural_previous None m3))"

subsection \<open>\<^verbatim>\<open>_overwrite_list\<close> and \<^verbatim>\<open>merge\<close>\<close>

text \<open>
  \<^verbatim>\<open>_overwrite_list\<close> assigns element by element over the common length, then appends
  what the other list has more, or pops what this one has more. The result is the new
  list and the number of monitored changes: one per differing element assigned, one per
  append, one per pop.
\<close>

fun overwrite_list :: "'a list \<Rightarrow> 'a list \<Rightarrow> 'a list \<times> nat" where
  "overwrite_list [] ys = (ys, length ys)"
| "overwrite_list (x # xs) [] = ([], Suc (length xs))"
| "overwrite_list (x # xs) (y # ys) =
     (case overwrite_list xs ys of (zs, n) \<Rightarrow> (y # zs, (if x = y then n else Suc n)))"

definition overwrite_manual_comment ::
  "'b message_scheme \<Rightarrow> 'a message_scheme \<Rightarrow> 'a message_scheme" where
  "overwrite_manual_comment other m =
     (case overwrite_list (manual_comment m) (manual_comment other) of
        (zs, n) \<Rightarrow> m\<lparr>manual_comment := zs, modcount := modcount m + n\<rparr>)"

definition overwrite_msgstr ::
  "'b message_scheme \<Rightarrow> 'a message_scheme \<Rightarrow> 'a message_scheme" where
  "overwrite_msgstr other m =
     (case overwrite_list (msgstr m) (msgstr other) of
        (zs, n) \<Rightarrow> m\<lparr>msgstr := zs, modcount := modcount m + n\<rparr>)"

definition copy_previous :: "'b message_scheme \<Rightarrow> 'a message_scheme \<Rightarrow> 'a message_scheme" where
  "copy_previous other m =
     set_msgid_plural_previous (msgid_plural_previous other)
       (set_msgid_previous (msgid_previous other)
          (set_msgctxt_previous (msgctxt_previous other) m))"

text \<open>
  \<^verbatim>\<open>merge\<close>, branch by branch. The first two statements are the guards: different keys
  raise, and an obsolete message on either side returns \<^verbatim>\<open>False\<close> before anything is
  assigned. The value returned at the end is \<^verbatim>\<open>modcount_before < self.modcount\<close>.
\<close>

definition merge_plural_overrides ::
  "'b message_scheme \<Rightarrow> 'a message_scheme \<Rightarrow> 'a message_scheme" where
  "merge_plural_overrides other m =
     (let m1 = (if manual_comment other \<noteq> [] then overwrite_manual_comment other m else m);
          m2 = (if fuzzy other then copy_previous other m1 else m1);
          m3 = set_msgid_plural (msgid_plural other) m2;
          m4 = overwrite_msgstr other m3
      in set_fuzzy (fuzzy other) m4)"

definition merge_same_state ::
  "'b message_scheme \<Rightarrow> 'a message_scheme \<Rightarrow> 'a message_scheme" where
  "merge_same_state other m =
     (let m1 = (if manual_comment m = [] then overwrite_manual_comment other m else m)
      in if msgid_plural other \<noteq> None then set_msgid_plural (msgid_plural other) m1 else m1)"

definition merge_fuzzy_translated ::
  "'b message_scheme \<Rightarrow> 'a message_scheme \<Rightarrow> 'a message_scheme" where
  "merge_fuzzy_translated other m =
     (let m1 = overwrite_manual_comment other m
      in if msgid_plural m1 = None \<or> msgid_plural other \<noteq> None then
           (let m2 = (if msgid_plural other \<noteq> None
                      then set_msgid_plural (msgid_plural other) m1 else m1);
                m3 = overwrite_msgstr other m2
            in if msgid_plural m3 = msgid_plural other then set_fuzzy False m3 else m3)
         else m1)"

definition merge_untranslated ::
  "'b message_scheme \<Rightarrow> 'a message_scheme \<Rightarrow> 'a message_scheme" where
  "merge_untranslated other m =
     (let m1 = overwrite_manual_comment other m
      in if msgid_plural m1 = None \<or> msgid_plural other \<noteq> None then
           (let m2 = (if fuzzy other then copy_previous other m1 else m1);
                m3 = (if msgid_plural other \<noteq> None
                      then set_msgid_plural (msgid_plural other) m2 else m2);
                m4 = overwrite_msgstr other m3
            in set_fuzzy (fuzzy other) m4)
         else m1)"

definition merge :: "'a message_scheme \<Rightarrow> 'b message_scheme \<Rightarrow> exn + (bool \<times> 'a message_scheme)" where
  "merge m other =
     (if key m \<noteq> key other then
        Inl (StandardError ''cannot merge messages with different keys'')
      else if obsolete m \<or> obsolete other then Inr (False, m)
      else
        (let m' =
           (if msgid_plural m = None \<and> msgid_plural other \<noteq> None then
              merge_plural_overrides other m
            else if (translated m \<and> translated other) \<or> (fuzzy m \<and> fuzzy other)
                    \<or> (untranslated m \<and> untranslated other) then
              merge_same_state other m
            else if fuzzy m \<and> translated other then merge_fuzzy_translated other m
            else if untranslated m \<and> (translated other \<or> fuzzy other) then
              merge_untranslated other m
            else m)
         in Inr (modcount m < modcount m', m')))"

text \<open>A fuzzy entry with a previous \<^verbatim>\<open>msgid\<close>, as a merge with a changed template leaves it.\<close>

definition msg_fuzzy :: message where
  "msg_fuzzy =
     \<lparr>manual_comment = [], auto_comment = [], source = [(''main.c'', 12)],
      flag = {''fuzzy'', ''c-format''}, obsolete = False,
      msgctxt_previous = None, msgid_previous = Some ''old'', msgid_plural_previous = None,
      msgctxt = None, msgid = ''new'', msgid_plural = None, msgstr = [''stari''],
      refline = 3, refentry = 1, modcount = 0, lines_all = [],
      committed = True, remove_on_sync = False\<rparr>"

section \<open>Text utilities (misc/resolve.py)\<close>


subsection \<open>\<^verbatim>\<open>_entity_tail_rx\<close>\<close>

text \<open>
  \<^verbatim>\<open>_entity_tail_rx = re.compile(r"([\w_:][\w\d._:-]*);")\<close>, matched at the start of
  a string. The semicolon is not in the class of the starred part, so the greedy run is
  the longest one and the match succeeds iff a semicolon follows it. The result is
  group 1, the entity name; group 0 is the name and the semicolon.
\<close>

definition name_start :: "ctype \<Rightarrow> nat \<Rightarrow> bool" where
  "name_start ct c = (isword ct c \<or> c = cp CHR ''_'' \<or> c = cp CHR '':'')"

definition name_char :: "ctype \<Rightarrow> nat \<Rightarrow> bool" where
  "name_char ct c =
     (isword ct c \<or> c = cp CHR ''.'' \<or> c = cp CHR ''_'' \<or> c = cp CHR '':''
      \<or> c = cp CHR ''-'')"

definition entity_tail_match :: "ctype \<Rightarrow> nat list \<Rightarrow> nat list option" where
  "entity_tail_match ct s =
     (case s of
        [] \<Rightarrow> None
      | c # cs \<Rightarrow>
          if name_start ct c then
            (case dropWhile (name_char ct) cs of
               [] \<Rightarrow> None
             | d # _ \<Rightarrow>
                 if d = cp CHR '';'' then Some (c # takeWhile (name_char ct) cs) else None)
          else None)"

subsection \<open>\<^verbatim>\<open>resolve_alternatives\<close>\<close>

text \<open>
  \<^verbatim>\<open>resolve_alternatives\<close> compares and cuts the text and looks at no character class:
  it is modelled for any type of character.

  The \<^verbatim>\<open>for i in range(total)\<close> loop that reads the alternatives of one directive:
  \<^verbatim>\<open>
  for i in range(total):
      pp = p + 1
      p = text.find(sep, pp)
      if p < 0:
          malformed = True
          break
      alts.append(text[pp:p])
  \<close>
  It returns the alternatives read, the final \<^verbatim>\<open>p\<close> (\<open>-1\<close> after the \<^verbatim>\<open>break\<close>) and
  whether it set \<^verbatim>\<open>malformed\<close>.
\<close>

fun read_alts :: "'a list \<Rightarrow> 'a \<Rightarrow> nat \<Rightarrow> int \<Rightarrow> 'a list list \<Rightarrow> 'a list list \<times> int \<times> bool" where
  "read_alts s sep 0 p alts = (alts, p, False)"
| "read_alts s sep (Suc n) p alts =
     (let pp = nat (p + 1) in
      case py_find s [sep] pp of
        None \<Rightarrow> (alts, - 1, True)
      | Some q \<Rightarrow> read_alts s sep n (int q) (alts @ [slice s pp q]))"

text \<open>
  The \<^verbatim>\<open>while True\<close> loop, on the state \<^verbatim>\<open>p\<close>, \<^verbatim>\<open>new_text\<close>, \<^verbatim>\<open>nresolved\<close>,
  \<^verbatim>\<open>malformed\<close>. It leaves by the two \<^verbatim>\<open>break\<close>s only: no further directive head, or
  a head with fewer than two characters after it. The \<^verbatim>\<open>break\<close> of the inner
  \<^verbatim>\<open>for\<close> leaves the \<^verbatim>\<open>for\<close>, not the \<^verbatim>\<open>while\<close>. A loop that does not return is
  \<open>None\<close>. \<^verbatim>\<open>fmtstr % alt\<close> and \<^verbatim>\<open>condf(*alts)\<close> are the caller's functions; warnings
  to standard output are not modelled. \<^verbatim>\<open>total\<close> is written \<open>total'\<close>.
\<close>

partial_function (option) alternatives_loop ::
  "'a list \<Rightarrow> int \<Rightarrow> int \<Rightarrow> ('a list \<Rightarrow> 'a list) option \<Rightarrow> ('a list list \<Rightarrow> bool) option \<Rightarrow> 'a list
   \<Rightarrow> int \<Rightarrow> 'a list \<Rightarrow> nat \<Rightarrow> bool \<Rightarrow> (exn + 'a list \<times> nat \<times> bool) option" where
  "alternatives_loop s select total' fmtstr condf althead p new_text nresolved malformed =
     (let pp = nat (p + 1) in
      case py_find s althead pp of
        None \<Rightarrow> Some (Inr (new_text @ drop pp s, nresolved, malformed))
      | Some ps \<Rightarrow>
          (let new_text1 = new_text @ slice s pp ps in
           if length s < ps + length althead + 2 then Some (Inr (new_text1, nresolved, True))
           else
             (let p1 = ps + length althead; sep = s ! p1 in
              case read_alts s sep (nat total') (int p1) [] of
                (alts, p2, malf) \<Rightarrow>
                  if select - 1 < int (length alts)
                     \<and> (case condf of None \<Rightarrow> True | Some f \<Rightarrow> f alts) then
                    (case py_index alts (select - 1) of
                       None \<Rightarrow> Some (Inl IndexError)
                     | Some alt \<Rightarrow>
                         alternatives_loop s select total' fmtstr condf althead p2
                           (new_text1 @ (case fmtstr of None \<Rightarrow> alt | Some f \<Rightarrow> f alt))
                           (nresolved + 1) (malformed \<or> malf))
                  else
                    alternatives_loop s select total' fmtstr condf althead p2
                      (new_text1 @ slice s ps (nat (p2 + 1))) nresolved (malformed \<or> malf))))"

text \<open>
  After the loop:
  \<^verbatim>\<open>
  if malformed:
      new_text = original_text
      nresolved = 0
  return new_text, nresolved, malformed
  \<close>
\<close>

definition resolve_alternatives ::
  "'a list \<Rightarrow> int \<Rightarrow> int \<Rightarrow> ('a list \<Rightarrow> 'a list) option \<Rightarrow> ('a list list \<Rightarrow> bool) option \<Rightarrow> 'a list
   \<Rightarrow> (exn + 'a list \<times> nat \<times> bool) option" where
  "resolve_alternatives s select total' fmtstr condf althead =
     (case alternatives_loop s select total' fmtstr condf althead (- 1) [] 0 False of
        None \<Rightarrow> None
      | Some (Inl e) \<Rightarrow> Some (Inl e)
      | Some (Inr (new_text, nresolved, malformed)) \<Rightarrow>
          Some (Inr (if malformed then (s, 0, True) else (new_text, nresolved, False))))"

subsection \<open>\<^verbatim>\<open>first_to_case\<close>\<close>


text \<open>
  \<^verbatim>\<open>cseg.upper()\<close> and \<^verbatim>\<open>cseg.lower()\<close>; where the case is changed \<^verbatim>\<open>cseg\<close> is the
  one character \<^verbatim>\<open>c\<close>.
\<close>

definition str_case :: "ctype \<Rightarrow> bool \<Rightarrow> nat list \<Rightarrow> nat list" where
  "str_case ct up s = concat (map (if up then upper ct else lower ct) s)"






subsection \<open>\<^verbatim>\<open>resolve_entities\<close>\<close>




subsection \<open>The value graph of an entity map\<close>
















subsection \<open>\<^verbatim>\<open>remove_accelerator\<close>\<close>

text \<open>
  The two scans around a parenthesised accelerator:
  \<^verbatim>\<open>
  p1 = p - 2
  while p1 >= 0 and not text[p1].isalnum():
      p1 -= 1
  p1 += 1
  p2 = p + 2
  while p2 < tlen and not text[p2].isalnum():
      p2 += 1
  p2 -= 1
  \<close>
  \<open>scan_back s k\<close> runs the first from \<open>p1 = k - 1\<close> and returns \<open>p1 + 1\<close>;
  \<open>scan_fwd s p2\<close> runs the second and returns \<open>p2\<close> before the decrement.
\<close>

fun scan_back :: "ctype \<Rightarrow> nat list \<Rightarrow> nat \<Rightarrow> nat" where
  "scan_back ct s 0 = 0"
| "scan_back ct s (Suc k) = (if isalnum ct (s ! k) then Suc k else scan_back ct s k)"

function scan_fwd :: "ctype \<Rightarrow> nat list \<Rightarrow> nat \<Rightarrow> nat" where
  "scan_fwd ct s p2 =
     (if p2 < length s \<and> \<not> isalnum ct (s ! p2) then scan_fwd ct s (p2 + 1) else p2)"
  by pat_completeness auto
termination
  by (relation "measure (\<lambda>(ct, s, p2). length s - p2)") auto

declare scan_fwd.simps [simp del]

text \<open>
  A valid accelerator at \<open>p\<close>: the marker is cut out, and if what is left there is
  \<^verbatim>\<open>(X)\<close> at the start or the end of the text (non-alphanumerics apart), the group is
  cut out too. \<^verbatim>\<open>text[p - 1:p]\<close> is empty for \<open>p = 0\<close>.
\<close>

definition remove_marker :: "ctype \<Rightarrow> nat list \<Rightarrow> nat \<Rightarrow> nat \<Rightarrow> nat list" where
  "remove_marker ct s0 p alen =
     (let s = take p s0 @ drop (p + alen) s0 in
      if 0 < p \<and> slice s (p - 1) p = lit ''('' \<and> slice s (p + 1) (p + 2) = lit '')'' then
        (let tlen = length s;
             p1 = scan_back ct s (p - 1);
             p2 = scan_fwd ct s (p + 2) - 1
         in if p1 = 0 then lstrip ct (take (p - 1) s) @ drop (p2 + 1) s
            else if p2 + 1 = tlen then take p1 s @ rstrip ct (drop (p + 2) s)
            else s)
      else s)"

text \<open>
  The \<^verbatim>\<open>while True\<close> loop for one marker. An empty marker makes no progress
  (\<^verbatim>\<open>p += alen\<close>), so the loop need not return: \<open>None\<close>.
\<close>

partial_function (option) accelerator_loop ::
  "ctype \<Rightarrow> nat list \<Rightarrow> nat list \<Rightarrow> nat \<Rightarrow> nat list option" where
  "accelerator_loop ct accel s p0 =
     (case py_find s accel p0 of
        None \<Rightarrow> Some s
      | Some p \<Rightarrow>
          (let alen = length accel in
           if str_isalnum ct (slice s (p + alen) (p + alen + 1)) then
             (case (if accel = lit ''&'' then entity_tail_match ct (drop (p + alen) s)
                    else None) of
                Some entname \<Rightarrow> accelerator_loop ct accel s (p + alen + length entname + 1)
              | None \<Rightarrow> Some (remove_marker ct s p alen))
           else
             accelerator_loop ct accel
               (if slice s (p + alen) (p + 2 * alen) = accel
                then take p s @ drop (p + alen) s else s)
               (p + alen)))"

text \<open>\<^verbatim>\<open>for accel in accels\<close>: one run of the loop for every element, in order.\<close>

fun accelerator_for :: "ctype \<Rightarrow> nat list list \<Rightarrow> nat list \<Rightarrow> nat list option" where
  "accelerator_for ct [] s = Some s"
| "accelerator_for ct (accel # accels) s =
     (case accelerator_loop ct accel s 0 of
        None \<Rightarrow> None
      | Some s' \<Rightarrow> accelerator_for ct accels s')"

definition usual_accels :: "nat list list" where
  "usual_accels = [lit ''_'', lit ''&'', lit ''~'', lit ''^'']"

definition remove_accelerator ::
  "ctype \<Rightarrow> nat list \<Rightarrow> nat list list option \<Rightarrow> bool \<Rightarrow> nat list option" where
  "remove_accelerator ct s accels greedy =
     (case accels of
        None \<Rightarrow> if \<not> greedy then Some s else accelerator_for ct usual_accels s
      | Some as \<Rightarrow> accelerator_for ct as s)"

section \<open>The catalog and its \<^verbatim>\<open>sync\<close> (pology/catalog.py)\<close>

text \<open>
  What \<^verbatim>\<open>Catalog\<close> holds, as far as \<^verbatim>\<open>sync\<close> reads or writes it: the header, the
  sequence of messages, the tail, the file name, whether the entries are monitored, the
  catalog's own sequence counter, the key-to-position map and the created-from-scratch
  mark. The cached language, environments, accelerators, markup, wrapping and the inverse
  map play no part in what \<^verbatim>\<open>sync\<close> writes and are left out.

  Modelled from the spec: \<^verbatim>\<open>Header\<close> (\<^verbatim>\<open>pology.header\<close>) is not among the sources.
  The catalog uses it as one more entry (\<^verbatim>\<open>sync\<close> inserts it at the front "for
  homogeneous iteration"), with \<^verbatim>\<open>to_lines\<close>, \<^verbatim>\<open>obsolete\<close>, \<^verbatim>\<open>_committed\<close> and
  \<^verbatim>\<open>_remove_on_sync\<close>; it is an entry here. A header is not obsolete; the theorems that
  need this say so.
\<close>

record 'a catalog =
  header :: "'a message_scheme"
  messages :: "'a message_scheme list"
  tail :: "string option"
  filename :: "nat list"
  monitored :: bool
  seq_modcount :: nat
  msgpos :: "string \<rightharpoonup> nat"
  created_from_scratch :: bool

subsection \<open>\<^verbatim>\<open>Message_base.to_lines\<close>\<close>

text \<open>
  \<^verbatim>\<open>
  if force or self.modcount or not self._lines_all:
      self._renew_lines(wrapf, force)
  return self._lines_all
  \<close>
  \<^verbatim>\<open>_renew_lines\<close> belongs to the subclass and calls the wrapping functions of
  \<^verbatim>\<open>pology.misc.wrap\<close>, which are not among the sources: it is the parameter
  \<open>renew_lines\<close>. As \<^verbatim>\<open>_renew_lines_bymod\<close> does, it assigns line caches only: it
  gives the new \<^verbatim>\<open>_lines_all\<close> and the new state of the subclass. The lines returned
  are \<open>lines_all\<close> of the entry returned.
\<close>

definition to_lines ::
  "(bool \<Rightarrow> 'a message_scheme \<Rightarrow> string list \<times> 'a) \<Rightarrow> bool \<Rightarrow> 'a message_scheme \<Rightarrow> 'a message_scheme" where
  "to_lines renew_lines force m =
     (if force \<or> modcount m \<noteq> 0 \<or> lines_all m = [] then
        (case renew_lines force m of (ls, x) \<Rightarrow> m\<lparr>lines_all := ls, message.more := x\<rparr>)
      else m)"

subsection \<open>\<^verbatim>\<open>Catalog.__init__\<close>, after the parse\<close>

text \<open>
  \<^verbatim>\<open>_parse_po_file\<close> gives the entries \<^verbatim>\<open>m\<close> (never empty: it raises on a file with
  no entry) and the tail. Every entry is a new object, so its counters start at zero
  (\<open>fresh\<close>). The first entry is the header when it has neither \<^verbatim>\<open>msgctxt\<close> nor
  \<^verbatim>\<open>msgid\<close>; otherwise the header is a new, uncommitted one (\<open>default_header\<close>).
  Then every message is marked committed and not to be removed, and the key-to-position
  map is filled.
\<close>

definition fresh :: "'a message_scheme \<Rightarrow> 'a message_scheme" where
  "fresh m = m\<lparr>modcount := 0\<rparr>"

definition falsy :: "string option \<Rightarrow> bool" where
  "falsy v = (v = None \<or> v = Some [])"

definition pick_entries ::
  "bool \<Rightarrow> nat \<Rightarrow> 'a message_scheme list \<Rightarrow> exn + 'a message_scheme list" where
  "pick_entries proper single_entry m =
     (if proper then
        (if 0 < single_entry then
           (if single_entry < length m then Inr [m ! single_entry] else Inl IndexError)
         else Inr (tl m))
      else
        (if 0 < single_entry then
           (if single_entry - 1 < length m then Inr [m ! (single_entry - 1)] else Inl IndexError)
         else Inr m))"

fun build_msgpos :: "'a message_scheme list \<Rightarrow> nat \<Rightarrow> (string \<rightharpoonup> nat) \<Rightarrow> (string \<rightharpoonup> nat)" where
  "build_msgpos [] i mp = mp"
| "build_msgpos (m # ms) i mp = build_msgpos ms (i + 1) (mp(key m \<mapsto> i))"

definition catalog_from_parse ::
  "nat list \<Rightarrow> bool \<Rightarrow> nat \<Rightarrow> 'a message_scheme \<Rightarrow> 'a message_scheme list \<Rightarrow> string option
   \<Rightarrow> exn + 'a catalog" where
  "catalog_from_parse fname mon single_entry default_header parsed t =
     (case map fresh parsed of
        [] \<Rightarrow> Inl IndexError
      | m0 # rest \<Rightarrow>
          (let proper = (falsy (msgctxt m0) \<and> msgid m0 = []);
               hdr = (if proper then m0\<lparr>committed := True\<rparr>
                      else (fresh default_header)\<lparr>committed := False\<rparr>)
           in case pick_entries proper single_entry (m0 # rest) of
                Inl e \<Rightarrow> Inl e
              | Inr ms \<Rightarrow>
                  (let ms' = map (\<lambda>m. m\<lparr>committed := True, remove_on_sync := False\<rparr>) ms
                   in Inr \<lparr>header = hdr, messages = ms', tail = t, filename = fname,
                           monitored = mon, seq_modcount = 0,
                           msgpos = build_msgpos ms' 0 Map.empty,
                           created_from_scratch = False\<rparr>)))"

subsection \<open>\<^verbatim>\<open>Catalog.sync\<close>\<close>

text \<open>
  Modelled from the spec: the catalog's \<^verbatim>\<open>modcount\<close> comes from \<^verbatim>\<open>Monitored\<close>, which
  is not among the sources. The catalog counts as modified when its own sequence counter,
  the header's counter or the counter of one of its messages is not zero.
\<close>

definition cat_modified :: "('a, 'b) catalog_scheme \<Rightarrow> bool" where
  "cat_modified c =
     (seq_modcount c \<noteq> 0 \<or> modcount (header c) \<noteq> 0
      \<or> list_ex (\<lambda>m. modcount m \<noteq> 0) (messages c))"

text \<open>
  \<^verbatim>\<open>
  if (    msg.msgid_plural is not None
      and len(msg.msgstr) != n
      and all(len(s) == 0 for s in msg.msgstr)):
      msg.msgstr[:] = [""] * n
  \<close>
  with \<open>n\<close> the \<^verbatim>\<open>nplurals()\<close> of the header, a parameter here.
\<close>

definition fit_plural :: "nat \<Rightarrow> 'a message_scheme \<Rightarrow> 'a message_scheme" where
  "fit_plural n msg =
     (if msgid_plural msg \<noteq> None \<and> length (msgstr msg) \<noteq> n
         \<and> list_all (\<lambda>s. length s = 0) (msgstr msg)
      then msg\<lparr>msgstr := replicate n [], modcount := modcount msg + 1\<rparr>
      else msg)"

text \<open>
  \<^verbatim>\<open>
  obstop = len(self._messages)
  while obstop > 0 and self._messages[obstop - 1].obsolete:
      obstop -= 1
  \<close>
\<close>

fun obstop_from :: "'a message_scheme list \<Rightarrow> nat \<Rightarrow> nat" where
  "obstop_from ms 0 = 0"
| "obstop_from ms (Suc k) = (if obsolete (ms ! k) then obstop_from ms k else Suc k)"

text \<open>
  \<^verbatim>\<open>list.pop(i)\<close> and \<^verbatim>\<open>list.insert(k, x)\<close>. The loop inserts at \<open>obsins - 1\<close> only
  under \<open>i < obstop\<close>, where \<open>obsins\<close> is at least 1.
\<close>

definition list_pop :: "nat \<Rightarrow> 'a list \<Rightarrow> 'a list" where
  "list_pop i xs = take i xs @ drop (Suc i) xs"

definition list_insert :: "nat \<Rightarrow> 'a \<Rightarrow> 'a list \<Rightarrow> 'a list" where
  "list_insert k x xs = take k xs @ x # drop k xs"

definition newline :: string where
  "newline = [CHR 0x0A]"

text \<open>
  \<^verbatim>\<open>
  if flines[-1] != "\n":
      flines.append("\n")
  \<close>
  on a list that is not empty.
\<close>

definition blank_after :: "string list \<Rightarrow> string list" where
  "blank_after flines = (if last flines \<noteq> newline then flines @ [newline] else flines)"

text \<open>
  The main loop of \<^verbatim>\<open>sync\<close>:
  \<^verbatim>\<open>
  while i < nmsgs:
      msg = self._messages[i]
      if msg.get("_remove_on_sync", False):
          i += 1
      elif not noobsend and msg.obsolete and i < obstop:
          msg = self._messages.pop(i)
          self._messages.insert(obsins - 1, msg) # -1 due to popping
          obstop -= 1
      else:
          committed = msg.get("_committed", False)
          flines.extend(msg.to_lines(self._wrapf, force or not committed))
          if flines[-1] != "\n":
              flines.append("\n")
          i += 1
  \<close>
  \<^verbatim>\<open>flines[-1]\<close> on an empty list is the \<^verbatim>\<open>IndexError\<close>. The loop ends: each turn either
  advances \<open>i\<close> or lowers \<open>obstop\<close>, which stays above \<open>i\<close>.
\<close>

function sync_loop ::
  "(bool \<Rightarrow> 'a message_scheme \<Rightarrow> string list \<times> 'a) \<Rightarrow> bool \<Rightarrow> bool \<Rightarrow> nat \<Rightarrow> nat
   \<Rightarrow> 'a message_scheme list \<Rightarrow> nat \<Rightarrow> nat \<Rightarrow> string list
   \<Rightarrow> exn + ('a message_scheme list \<times> string list)" where
  "sync_loop renew_lines force noobsend obsins nmsgs ms i obstop flines =
     (if i < nmsgs then
        (if length ms \<le> i then Inl IndexError
         else
           (let msg = ms ! i in
            if remove_on_sync msg then
              sync_loop renew_lines force noobsend obsins nmsgs ms (i + 1) obstop flines
            else if \<not> noobsend \<and> obsolete msg \<and> i < obstop then
              sync_loop renew_lines force noobsend obsins nmsgs
                (list_insert (obsins - 1) msg (list_pop i ms)) i (obstop - 1) flines
            else
              (let msg1 = to_lines renew_lines (force \<or> \<not> committed msg) msg;
                   flines1 = flines @ lines_all msg1
               in if flines1 = [] then Inl IndexError
                  else
                    sync_loop renew_lines force noobsend obsins nmsgs (ms[i := msg1]) (i + 1)
                      obstop (blank_after flines1))))
      else Inr (ms, flines))"
  by pat_completeness auto
termination
  by (relation "measure (\<lambda>(r, f, n, oi, nmsgs, ms, i, obstop, fl). (nmsgs - i) + obstop)") auto

declare sync_loop.simps [simp del]

text \<open>
  After the loop, the tail:
  \<^verbatim>\<open>
  if not self._tail:
      while flines and flines[-1] == "\n":
          flines.pop(-1)
  else:
      flines.extend(x + "\n" for x in self._tail.split("\n"))
      if self._tail.endswith("\n"):
          flines.pop(-1)
  \<close>
\<close>

fun split_on :: "char \<Rightarrow> string \<Rightarrow> string list" where
  "split_on c [] = [[]]"
| "split_on c (x # xs) =
     (if x = c then [] # split_on c xs
      else (case split_on c xs of [] \<Rightarrow> [[x]] | y # ys \<Rightarrow> (x # y) # ys))"

definition add_tail :: "string option \<Rightarrow> string list \<Rightarrow> string list" where
  "add_tail t flines =
     (case t of
        None \<Rightarrow> rev (dropWhile (\<lambda>l. l = newline) (rev flines))
      | Some s \<Rightarrow>
          if s = [] then rev (dropWhile (\<lambda>l. l = newline) (rev flines))
          else
            (let fl = flines @ map (\<lambda>x. x @ newline) (split_on (CHR 0x0A) s)
             in if s \<noteq> [] \<and> last s = CHR 0x0A then butlast fl else fl))"

text \<open>
  \<^verbatim>\<open>sync_map\<close>: the pending removals are carried out, the obsolete messages go behind
  the others, and the key-to-position map is rebuilt.
\<close>

definition sync_map :: "('a, 'b) catalog_scheme \<Rightarrow> ('a, 'b) catalog_scheme" where
  "sync_map c =
     (let newlst = filter (\<lambda>m. \<not> remove_on_sync m \<and> \<not> obsolete m) (messages c);
          newlst_obs = filter (\<lambda>m. \<not> remove_on_sync m \<and> obsolete m) (messages c);
          ms = newlst @ newlst_obs
      in c\<lparr>messages := ms, msgpos := build_msgpos ms 0 Map.empty\<rparr>)"

text \<open>
  \<^verbatim>\<open>line.encode(self._encoding)\<close> for every line; \<open>None\<close> is \<^verbatim>\<open>UnicodeEncodeError\<close>,
  which \<^verbatim>\<open>sync\<close> raises again as \<^verbatim>\<open>CatalogSyntaxError\<close>. The codec is the parameter
  \<open>enc\<close>.
\<close>

fun encode_lines :: "(string \<Rightarrow> string option) \<Rightarrow> string list \<Rightarrow> string list option" where
  "encode_lines enc [] = Some []"
| "encode_lines enc (l # ls) =
     (case enc l of
        None \<Rightarrow> None
      | Some e \<Rightarrow> (case encode_lines enc ls of None \<Rightarrow> None | Some es \<Rightarrow> Some (e # es)))"

text \<open>
  \<^verbatim>\<open>sync\<close> from the insertion of the header on (\<open>sync_write\<close>), and with the guards
  before it (\<open>sync\<close>). The result is the value returned, the lines written (\<open>None\<close>
  when nothing is written) and the catalog afterwards. Writing the lines to the file or
  to \<^verbatim>\<open>writefh\<close> is the last step and is not modelled further.
  The file name is a text whose blanks \<^verbatim>\<open>strip\<close> removes, under the character
  classes \<open>ct\<close>.
  \<^verbatim>\<open>
  if not self._filename.strip():
      raise PologyError(...)
  if not self._monitored:
      force = True
  if not force and not self.modcount:
      return False
  \<close>
\<close>

definition sync_write ::
  "(bool \<Rightarrow> 'a message_scheme \<Rightarrow> string list \<times> 'a) \<Rightarrow> (string \<Rightarrow> string option)
   \<Rightarrow> bool \<Rightarrow> bool \<Rightarrow> ('a, 'b) catalog_scheme
   \<Rightarrow> exn + (bool \<times> string list option \<times> ('a, 'b) catalog_scheme)" where
  "sync_write renew_lines enc force noobsend c =
     (let ms0 = (header c)\<lparr>remove_on_sync := False\<rparr> # messages c;
          nmsgs = length ms0;
          obstop = obstop_from ms0 (length ms0)
      in case sync_loop renew_lines force noobsend obstop nmsgs ms0 0 obstop [] of
           Inl e \<Rightarrow> Inl e
         | Inr (ms1, flines0) \<Rightarrow>
             (let flines = add_tail (tail c) flines0;
                  c1 = sync_map (c\<lparr>header := hd ms1, messages := tl ms1\<rparr>);
                  c2 = c1\<lparr>header := (header c1)\<lparr>modcount := 0\<rparr>,
                          messages := map (\<lambda>m. m\<lparr>modcount := 0\<rparr>) (messages c1),
                          seq_modcount := 0\<rparr>
              in case encode_lines enc flines of
                   None \<Rightarrow> Inl (CatalogSyntaxError ''Text encoding failure'')
                 | Some enclines \<Rightarrow>
                     Inr (True, Some enclines,
                          c2\<lparr>created_from_scratch := False,
                             header := (header c2)\<lparr>committed := True\<rparr>,
                             messages := map (\<lambda>m. m\<lparr>committed := True\<rparr>) (messages c2)\<rparr>)))"

definition sync ::
  "ctype \<Rightarrow> (bool \<Rightarrow> 'a message_scheme \<Rightarrow> string list \<times> 'a) \<Rightarrow> (string \<Rightarrow> string option) \<Rightarrow> nat
   \<Rightarrow> bool \<Rightarrow> bool \<Rightarrow> bool \<Rightarrow> ('a, 'b) catalog_scheme
   \<Rightarrow> exn + (bool \<times> string list option \<times> ('a, 'b) catalog_scheme)" where
  "sync ct renew_lines enc nplurals force0 noobsend fitplural c0 =
     (if strip ct (filename c0) = [] then Inl (PologyError ''Trying to sync unnamed catalog.'')
      else
        (let c = (if fitplural then c0\<lparr>messages := map (fit_plural nplurals) (messages c0)\<rparr>
                  else c0);
             force = (force0 \<or> \<not> monitored c)
         in if \<not> force \<and> \<not> cat_modified c then Inr (False, None, c)
            else sync_write renew_lines enc force noobsend c))"

subsection \<open>The order \<^verbatim>\<open>sync\<close> leaves\<close>

text \<open>
  What the loop does to one entry that it does not skip or move (\<open>emit\<close>), the lines
  it collects over a list of entries in order (\<open>emit_lines\<close>), and the order in which
  it leaves the list (\<open>sync_order\<close>): within the part before the first \<open>obstop\<close>, the
  entries moved (obsolete, not to be removed, and \<^verbatim>\<open>noobsend\<close> not set) go behind the
  others.
\<close>

definition hoisted :: "bool \<Rightarrow> 'a message_scheme \<Rightarrow> bool" where
  "hoisted noobsend m = (\<not> noobsend \<and> obsolete m \<and> \<not> remove_on_sync m)"

definition emit ::
  "(bool \<Rightarrow> 'a message_scheme \<Rightarrow> string list \<times> 'a) \<Rightarrow> bool \<Rightarrow> 'a message_scheme \<Rightarrow> 'a message_scheme" where
  "emit renew_lines force m =
     (if remove_on_sync m then m else to_lines renew_lines (force \<or> \<not> committed m) m)"

fun emit_lines ::
  "(bool \<Rightarrow> 'a message_scheme \<Rightarrow> string list \<times> 'a) \<Rightarrow> bool \<Rightarrow> 'a message_scheme list
   \<Rightarrow> string list \<Rightarrow> exn + string list" where
  "emit_lines renew_lines force [] flines = Inr flines"
| "emit_lines renew_lines force (m # ms) flines =
     (if remove_on_sync m then emit_lines renew_lines force ms flines
      else
        (let flines1 = flines @ lines_all (emit renew_lines force m)
         in if flines1 = [] then Inl IndexError
            else emit_lines renew_lines force ms (blank_after flines1)))"

definition sync_order :: "bool \<Rightarrow> 'a message_scheme list \<Rightarrow> 'a message_scheme list" where
  "sync_order noobsend ms =
     (let k = obstop_from ms (length ms)
      in filter (\<lambda>m. \<not> hoisted noobsend m) (take k ms)
         @ filter (hoisted noobsend) (take k ms) @ drop k ms)"

definition loop_result ::
  "'a message_scheme list \<Rightarrow> exn + string list \<Rightarrow> exn + ('a message_scheme list \<times> string list)" where
  "loop_result ms res = (case res of Inl e \<Rightarrow> Inl e | Inr fl \<Rightarrow> Inr (ms, fl))"

text \<open>
  The words of the claims: the frontier before the trailing run of obsolete messages,
  the order with every obsolete message before the frontier moved up to it, the
  messages after the fitting of plurals, an entry as \<^verbatim>\<open>sync\<close> leaves it, an entry that
  is clean, committed and cached, and the cached lines of a list of entries.
\<close>

definition frontier :: "'a message_scheme list \<Rightarrow> nat" where
  "frontier ms = obstop_from ms (length ms)"

definition hoist_order :: "'a message_scheme list \<Rightarrow> 'a message_scheme list" where
  "hoist_order ms =
     filter (\<lambda>m. \<not> obsolete m) (take (frontier ms) ms)
     @ filter obsolete (take (frontier ms) ms) @ drop (frontier ms) ms"

definition fitted :: "bool \<Rightarrow> nat \<Rightarrow> ('a, 'b) catalog_scheme \<Rightarrow> 'a message_scheme list" where
  "fitted fitplural nplurals c =
     (if fitplural then map (fit_plural nplurals) (messages c) else messages c)"

definition finish ::
  "(bool \<Rightarrow> 'a message_scheme \<Rightarrow> string list \<times> 'a) \<Rightarrow> bool \<Rightarrow> 'a message_scheme \<Rightarrow> 'a message_scheme" where
  "finish renew_lines force m = (emit renew_lines force m)\<lparr>modcount := 0, committed := True\<rparr>"



text \<open>
  Example data: entries as the parser leaves them for a header and messages \<^verbatim>\<open>M1\<close>,
  \<^verbatim>\<open>M2\<close> (obsolete), \<^verbatim>\<open>M3\<close>, the catalogs built from them, and a stand-in for the
  renderer.
\<close>

definition entry :: "string \<Rightarrow> bool \<Rightarrow> string list \<Rightarrow> message" where
  "entry mid obs ls =
     \<lparr>manual_comment = [], auto_comment = [], source = [], flag = {}, obsolete = obs,
      msgctxt_previous = None, msgid_previous = None, msgid_plural_previous = None,
      msgctxt = None, msgid = mid, msgid_plural = None, msgstr = [''x''],
      refline = - 1, refentry = - 1, modcount = 0, lines_all = ls,
      committed = False, remove_on_sync = False\<rparr>"

definition render_msgid :: "bool \<Rightarrow> message \<Rightarrow> string list \<times> unit" where
  "render_msgid force m = ([''msgid '' @ msgid m @ newline], ())"

definition po_header :: message where
  "po_header = entry [] False [''msgid \"\"'' @ newline, ''msgstr \"\"'' @ newline, newline]"

definition po_three :: "message list" where
  "po_three =
     [po_header,
      entry ''M1'' False [''msgid \"M1\"'' @ newline, ''msgstr \"x\"'' @ newline],
      entry ''M2'' True [''#~ msgid \"M2\"'' @ newline, ''#~ msgstr \"x\"'' @ newline],
      entry ''M3'' False [''msgid \"M3\"'' @ newline, ''msgstr \"x\"'' @ newline]]"

definition cat_three :: "unit catalog" where
  "cat_three =
     \<lparr>header = po_header\<lparr>committed := True\<rparr>,
      messages = map (\<lambda>m. m\<lparr>committed := True\<rparr>) (tl po_three),
      tail = None, filename = lit ''x.po'', monitored = True, seq_modcount = 0,
      msgpos = build_msgpos (map (\<lambda>m. m\<lparr>committed := True\<rparr>) (tl po_three)) 0 Map.empty,
      created_from_scratch = False\<rparr>"

definition po_two :: "message list" where
  "po_two =
     [po_header,
      entry ''a'' False [''msgid \"a\"'' @ newline, ''msgstr \"x\"'' @ newline]]"

definition cat_two :: "unit catalog" where
  "cat_two =
     \<lparr>header = po_header\<lparr>committed := True\<rparr>,
      messages = map (\<lambda>m. m\<lparr>committed := True\<rparr>) (tl po_two),
      tail = None, filename = lit ''x.po'', monitored = True, seq_modcount = 0,
      msgpos = build_msgpos (map (\<lambda>m. m\<lparr>committed := True\<rparr>) (tl po_two)) 0 Map.empty,
      created_from_scratch = False\<rparr>"

section \<open>Properties of message entries\<close>

lemma some_translated_iff: "some_translated vs \<longleftrightarrow> (\<exists>v \<in> set vs. v \<noteq> [])"
  by (induction vs) auto

lemma none_translated_iff: "none_translated vs \<longleftrightarrow> (\<forall>v \<in> set vs. v = [])"
  by (induction vs) auto

lemmas setter_defs =
  set_fuzzy_def flag_add_def flag_remove_def bump_def Let_def
  set_msgctxt_previous_def set_msgid_previous_def set_msgid_plural_previous_def

text \<open>
  C2. A message is fuzzy exactly when \<^verbatim>\<open>"fuzzy"\<close> is among its flags. Assigning
  \<^verbatim>\<open>True\<close> to \<^verbatim>\<open>fuzzy\<close> adds the flag (and nothing else to the flags); assigning
  \<^verbatim>\<open>False\<close> removes it and leaves the three previous-fields \<^verbatim>\<open>None\<close>.
\<close>

theorem fuzzy_flag:
  "(fuzzy m \<longleftrightarrow> ''fuzzy'' \<in> flag m)
   \<and> flag (set_fuzzy True m) = insert ''fuzzy'' (flag m)
   \<and> fuzzy (set_fuzzy True m)
   \<and> flag (set_fuzzy False m) = flag m - {''fuzzy''}
   \<and> \<not> fuzzy (set_fuzzy False m)
   \<and> msgctxt_previous (set_fuzzy False m) = None
   \<and> msgid_previous (set_fuzzy False m) = None
   \<and> msgid_plural_previous (set_fuzzy False m) = None"
  by (auto simp: fuzzy_def setter_defs)

text \<open>
  C8. \<^verbatim>\<open>translated\<close> holds iff the message is not fuzzy and some \<^verbatim>\<open>msgstr\<close> element
  is non-empty; \<^verbatim>\<open>untranslated\<close> holds iff it is not fuzzy and every element is empty.
  The two never hold together, and both fail exactly for a fuzzy message.
\<close>

theorem translated_untranslated:
  "(translated m \<longleftrightarrow> \<not> fuzzy m \<and> (\<exists>v \<in> set (msgstr m). v \<noteq> []))
   \<and> (untranslated m \<longleftrightarrow> \<not> fuzzy m \<and> (\<forall>v \<in> set (msgstr m). v = []))
   \<and> \<not> (translated m \<and> untranslated m)
   \<and> ((\<not> translated m \<and> \<not> untranslated m) \<longleftrightarrow> fuzzy m)"
  by (auto simp: translated_def untranslated_def some_translated_iff none_translated_iff)

theorem translated_untranslated_witness:
  "\<not> translated msg_fuzzy \<and> \<not> untranslated msg_fuzzy \<and> fuzzy msg_fuzzy
   \<and> translated (set_fuzzy False msg_fuzzy) \<and> \<not> untranslated (set_fuzzy False msg_fuzzy)"
  using translated_untranslated [of msg_fuzzy]
    translated_untranslated [of "set_fuzzy False msg_fuzzy"]
  by (simp add: msg_fuzzy_def fuzzy_def setter_defs)

text \<open>
  C10. \<^verbatim>\<open>merge\<close> raises when the keys of the two messages differ. When the keys are
  equal and either message is obsolete, it returns \<^verbatim>\<open>False\<close> and the target message is
  the one it was, in every field.
\<close>

theorem merge_guards:
  "(key m \<noteq> key other \<longrightarrow>
      merge m other = Inl (StandardError ''cannot merge messages with different keys''))
   \<and> (key m = key other \<and> (obsolete m \<or> obsolete other) \<longrightarrow> merge m other = Inr (False, m))"
  by (simp add: merge_def)

theorem merge_guards_witness:
  "key msg_fuzzy \<noteq> key (msg_fuzzy\<lparr>msgid := ''other''\<rparr>)
   \<and> merge msg_fuzzy (msg_fuzzy\<lparr>msgid := ''other''\<rparr>)
       = Inl (StandardError ''cannot merge messages with different keys'')
   \<and> key msg_fuzzy = key (msg_fuzzy\<lparr>obsolete := True, msgstr := [''novi'']\<rparr>)
   \<and> merge msg_fuzzy (msg_fuzzy\<lparr>obsolete := True, msgstr := [''novi'']\<rparr>)
       = Inr (False, msg_fuzzy)"
  using merge_guards [of msg_fuzzy "msg_fuzzy\<lparr>msgid := ''other''\<rparr>"]
    merge_guards [of msg_fuzzy "msg_fuzzy\<lparr>obsolete := True, msgstr := [''novi'']\<rparr>"]
  by (simp add: msg_fuzzy_def key_def compose_field_def)

section \<open>Properties of the text utilities\<close>

subsection \<open>Character classes\<close>

lemma ascii_compatibleD: "ascii_compatible ct \<Longrightarrow> 32 \<le> c \<Longrightarrow> c < 127 \<Longrightarrow> ascii_at ct c"
  unfolding ascii_compatible_def list_all_iff set_upt by simp

lemma ascii_compatible_ascii: "ascii_compatible ascii_ctype"
  unfolding ascii_compatible_def list_all_iff set_upt by (simp add: ascii_at_def)

lemma ascii_isalpha:
  "ascii_compatible ct \<Longrightarrow> 32 \<le> c \<Longrightarrow> c < 127 \<Longrightarrow> isalpha ct c = ascii_isalpha c"
  by (drule (2) ascii_compatibleD) (simp add: ascii_at_def ascii_ctype_def)

lemma ascii_isalnum:
  "ascii_compatible ct \<Longrightarrow> 32 \<le> c \<Longrightarrow> c < 127 \<Longrightarrow>
   isalnum ct c = (ascii_isalpha c \<or> ascii_isdigit c)"
  by (drule (2) ascii_compatibleD) (simp add: ascii_at_def ascii_ctype_def)

lemma ascii_isspace:
  "ascii_compatible ct \<Longrightarrow> 32 \<le> c \<Longrightarrow> c < 127 \<Longrightarrow> isspace ct c = (c = 32)"
  by (drule (2) ascii_compatibleD) (auto simp add: ascii_at_def ascii_ctype_def)

lemma ascii_isword:
  "ascii_compatible ct \<Longrightarrow> 32 \<le> c \<Longrightarrow> c < 127 \<Longrightarrow>
   isword ct c = (ascii_isalpha c \<or> ascii_isdigit c \<or> c = 95)"
  by (drule (2) ascii_compatibleD) (simp add: ascii_at_def ascii_ctype_def)

lemma ascii_upper:
  "ascii_compatible ct \<Longrightarrow> 32 \<le> c \<Longrightarrow> c < 127 \<Longrightarrow>
   upper ct c = (if 97 \<le> c \<and> c \<le> 122 then [c - 32] else [c])"
  by (drule (2) ascii_compatibleD) (simp add: ascii_at_def ascii_ctype_def)

lemma ascii_lower:
  "ascii_compatible ct \<Longrightarrow> 32 \<le> c \<Longrightarrow> c < 127 \<Longrightarrow>
   lower ct c = (if 65 \<le> c \<and> c \<le> 90 then [c + 32] else [c])"
  by (drule (2) ascii_compatibleD) (simp add: ascii_at_def ascii_ctype_def)

lemmas ascii_classes =
  ascii_isalpha ascii_isalnum ascii_isspace ascii_isword ascii_upper ascii_lower
  ascii_isalpha_def ascii_isdigit_def

lemmas char_defs = lit_def cp_def str_isalnum_def lstrip_def rstrip_def strip_def
  name_start_def name_char_def str_case_def

lemmas accel_defs = remove_accelerator_def usual_accels_def accelerator_loop.simps remove_marker_def
  entity_tail_match_def py_find_def slice_def Let_def


lemmas ascii_defs = ascii_ctype_def ascii_isalpha_def ascii_isdigit_def


subsection \<open>\<^verbatim>\<open>resolve_alternatives\<close>\<close>

lemma resolve_alternatives_no_directive:
  "py_find s althead 0 = None \<Longrightarrow>
   resolve_alternatives s select total' fmtstr condf althead = Some (Inr (s, 0, False))"
  by (simp add: resolve_alternatives_def alternatives_loop.simps)

lemma resolve_alternatives_truncated:
  "py_find s althead 0 = Some ps \<Longrightarrow> length s < ps + length althead + 2 \<Longrightarrow>
   resolve_alternatives s select total' fmtstr condf althead = Some (Inr (s, 0, True))"
  by (simp add: resolve_alternatives_def alternatives_loop.simps)

lemma resolve_alternatives_example:
  "resolve_alternatives ''I see a ~@/pink/white/ elephant.'' 2 2 None None ''~@''
     = Some (Inr (''I see a white elephant.'', 1, False))"
  by (simp add: resolve_alternatives_def alternatives_loop.simps py_find_def slice_def
      py_index_def Let_def eval_nat_numeral)

lemma alternatives_never_returns:
  assumes "alternatives_loop s select total' fmtstr condf althead p new_text nresolved malformed = Some y"
  shows "\<not> (s = ''~@/a'' \<and> select = 1 \<and> total' = 2 \<and> fmtstr = None \<and> condf = None
            \<and> althead = ''~@'' \<and> p = - 1)"
proof (rule alternatives_loop.raw_induct
    [where P = "\<lambda>s select total' fmtstr condf althead p new_text nresolved malformed y.
       \<not> (s = ''~@/a'' \<and> select = 1 \<and> total' = 2 \<and> fmtstr = None \<and> condf = None
            \<and> althead = ''~@'' \<and> p = - 1)",
     OF _ assms], goal_cases)
  case (1 f s select total' fmtstr condf althead p new_text nresolved malformed y)
  note IH = 1(1) and step = 1(2)
  show ?case
  proof
    assume bad: "s = ''~@/a'' \<and> select = 1 \<and> total' = 2 \<and> fmtstr = None \<and> condf = None
            \<and> althead = ''~@'' \<and> p = - 1"
    with step have "f ''~@/a'' 1 2 None None ''~@'' (- 1) new_text nresolved True = Some y"
      by (simp add: py_find_def slice_def py_index_def Let_def eval_nat_numeral)
    from IH [OF this] show False by simp
  qed
qed

text \<open>
  C4. A directive with too few alternatives sets \<^verbatim>\<open>malformed\<close> and leaves the inner
  \<^verbatim>\<open>for\<close> with \<open>p = -1\<close>; the \<^verbatim>\<open>while\<close> loop then searches from index 0 and
  finds the same directive again. On \<^verbatim>\<open>resolve_alternatives("~@/a", 1, 2)\<close> the function
  does not return.
\<close>

theorem resolve_alternatives_too_few_never_returns: "resolve_alternatives ''~@/a'' 1 2 None None ''~@'' = None"
proof (cases "alternatives_loop ''~@/a'' 1 2 None None ''~@'' (- 1) [] 0 False")
  case None
  then show ?thesis by (simp add: resolve_alternatives_def)
next
  case (Some y)
  from alternatives_never_returns [OF this] show ?thesis by simp
qed

subsection \<open>\<^verbatim>\<open>remove_accelerator\<close>\<close>

lemma find_pre_single: "find_pre [a] s = Some i \<Longrightarrow> i < length s \<and> s ! i = a"
  by (induction s arbitrary: i) (auto split: if_splits)

lemma py_find_single: "py_find s [a] p0 = Some p \<Longrightarrow> p0 \<le> p \<and> p < length s \<and> s ! p = a"
  by (auto simp: py_find_def add.commute split: if_splits dest!: find_pre_single)

lemma accelerator_loop_skips:
  assumes "list_all (\<lambda>p. s ! p = a \<longrightarrow> \<not> str_isalnum ct (slice s (p + 1) (p + 2))
                              \<and> slice s (p + 1) (p + 2) \<noteq> [a]) [0..<length s]"
  shows "accelerator_loop ct [a] s p0 = Some s"
proof (induction "length s - p0" arbitrary: p0 rule: less_induct)
  case less
  show ?case
  proof (cases "py_find s [a] p0")
    case None
    then show ?thesis by (simp add: accelerator_loop.simps)
  next
    case (Some p)
    from py_find_single [OF Some] have p: "p0 \<le> p" "p < length s" "s ! p = a"
      by simp_all
    with assms have no: "\<not> str_isalnum ct (slice s (p + 1) (p + 2))"
      and ne: "slice s (p + 1) (p + 2) \<noteq> [a]"
      by (simp_all add: list_all_iff)
    have "accelerator_loop ct [a] s (p + 1) = Some s"
      by (rule less) (use p in simp)
    with Some no ne show ?thesis
      by (subst accelerator_loop.simps) (simp add: Let_def)
  qed
qed

text \<open>
  C6, as stated, fails: on \<^verbatim>\<open>"Foo &Bar (&B)"\<close> the result is not \<^verbatim>\<open>"Foo Bar"\<close>, whether
  the call has the default arguments, the marker \<^verbatim>\<open>&\<close>, or \<^verbatim>\<open>greedy\<close>.
\<close>

theorem remove_accelerator_counterexample:
  "remove_accelerator ascii_ctype (lit ''Foo &Bar (&B)'') None False = Some (lit ''Foo &Bar (&B)'')
   \<and> remove_accelerator ascii_ctype (lit ''Foo &Bar (&B)'') (Some [lit ''&'']) False
       = Some (lit ''Foo Bar (&B)'')
   \<and> remove_accelerator ascii_ctype (lit ''Foo &Bar (&B)'') None True = Some (lit ''Foo Bar (&B)'')
   \<and> lit ''Foo &Bar (&B)'' \<noteq> lit ''Foo Bar'' \<and> lit ''Foo Bar (&B)'' \<noteq> lit ''Foo Bar''"
  by (simp add: accel_defs char_defs ascii_ctype_def ascii_isalpha_def ascii_isdigit_def
      scan_fwd.simps eval_nat_numeral)

text \<open>
  C6, amended. Under every variant of the character classes that is that of ASCII on the
  printable ASCII characters:
  \<^item> with the default arguments every text is returned as it is;
  \<^item> with the marker \<^verbatim>\<open>&\<close>, given or guessed under \<^verbatim>\<open>greedy\<close>, \<^verbatim>\<open>"Foo &Bar (&B)"\<close>
    becomes \<^verbatim>\<open>"Foo Bar (&B)"\<close>;
  \<^item> with the marker \<^verbatim>\<open>&\<close> given twice it becomes \<^verbatim>\<open>"Foo Bar"\<close>, as does
    \<^verbatim>\<open>"Foo Bar (&B)"\<close> with the marker given once;
  \<^item> \<^verbatim>\<open>"Foo & Bar"\<close> is returned as it is under \<^verbatim>\<open>greedy\<close>;
  \<^item> with the marker \<^verbatim>\<open>&\<close> given, any text is returned as it is in which no \<^verbatim>\<open>&\<close> is
    followed by an alphanumeric character or by another \<^verbatim>\<open>&\<close>.
\<close>

theorem remove_accelerator_examples:
  assumes "ascii_compatible ct"
  shows "remove_accelerator ct s None False = Some s
         \<and> remove_accelerator ct (lit ''Foo &Bar (&B)'') (Some [lit ''&'']) False
             = Some (lit ''Foo Bar (&B)'')
         \<and> remove_accelerator ct (lit ''Foo &Bar (&B)'') None True = Some (lit ''Foo Bar (&B)'')
         \<and> remove_accelerator ct (lit ''Foo &Bar (&B)'') (Some [lit ''&'', lit ''&'']) False
             = Some (lit ''Foo Bar'')
         \<and> remove_accelerator ct (lit ''Foo Bar (&B)'') (Some [lit ''&'']) False
             = Some (lit ''Foo Bar'')
         \<and> remove_accelerator ct (lit ''Foo & Bar'') None True = Some (lit ''Foo & Bar'')
         \<and> (list_all (\<lambda>p. s ! p = cp CHR ''&'' \<longrightarrow>
                            \<not> str_isalnum ct (slice s (p + 1) (p + 2))
                            \<and> slice s (p + 1) (p + 2) \<noteq> lit ''&'') [0..<length s]
              \<longrightarrow> remove_accelerator ct s (Some [lit ''&'']) False = Some s)"
proof -
  have general: "remove_accelerator ct s (Some [lit ''&'']) False = Some s"
    if "list_all (\<lambda>p. s ! p = cp CHR ''&'' \<longrightarrow>
                            \<not> str_isalnum ct (slice s (p + 1) (p + 2))
                            \<and> slice s (p + 1) (p + 2) \<noteq> lit ''&'') [0..<length s]"
  proof -
    from that have "accelerator_loop ct [cp CHR ''&''] s 0 = Some s"
      by (intro accelerator_loop_skips) (simp add: lit_def)
    then show ?thesis
      by (simp add: remove_accelerator_def lit_def)
  qed
  have "remove_accelerator ct s None False = Some s"
    by (simp add: remove_accelerator_def)
  moreover have "remove_accelerator ct (lit ''Foo &Bar (&B)'') (Some [lit ''&'']) False
             = Some (lit ''Foo Bar (&B)'')"
    using assms by (simp add: accel_defs char_defs ascii_classes scan_fwd.simps eval_nat_numeral)
  moreover have "remove_accelerator ct (lit ''Foo &Bar (&B)'') None True = Some (lit ''Foo Bar (&B)'')"
    using assms by (simp add: accel_defs char_defs ascii_classes scan_fwd.simps eval_nat_numeral)
  moreover have "remove_accelerator ct (lit ''Foo &Bar (&B)'') (Some [lit ''&'', lit ''&'']) False
             = Some (lit ''Foo Bar'')"
    using assms by (simp add: accel_defs char_defs ascii_classes scan_fwd.simps eval_nat_numeral)
  moreover have "remove_accelerator ct (lit ''Foo Bar (&B)'') (Some [lit ''&'']) False
             = Some (lit ''Foo Bar'')"
    using assms by (simp add: accel_defs char_defs ascii_classes scan_fwd.simps eval_nat_numeral)
  moreover have "remove_accelerator ct (lit ''Foo & Bar'') None True = Some (lit ''Foo & Bar'')"
    using assms by (simp add: accel_defs char_defs ascii_classes scan_fwd.simps eval_nat_numeral)
  ultimately show ?thesis
    using general by blast
qed

text \<open>
  The amended statement at the classes of ASCII and the text \<^verbatim>\<open>"Foo & Bar"\<close>, whose one
  \<^verbatim>\<open>&\<close> is followed by a space.
\<close>

theorem remove_accelerator_examples_witness:
  "ascii_compatible ascii_ctype
   \<and> remove_accelerator ascii_ctype (lit ''Foo & Bar'') None False = Some (lit ''Foo & Bar'')
   \<and> remove_accelerator ascii_ctype (lit ''Foo &Bar (&B)'') (Some [lit ''&'', lit ''&'']) False
       = Some (lit ''Foo Bar'')
   \<and> remove_accelerator ascii_ctype (lit ''Foo & Bar'') (Some [lit ''&'']) False
       = Some (lit ''Foo & Bar'')"
proof -
  have c: "ascii_compatible ascii_ctype"
    by (rule ascii_compatible_ascii)
  have h: "list_all (\<lambda>p. lit ''Foo & Bar'' ! p = cp CHR ''&'' \<longrightarrow>
                            \<not> str_isalnum ascii_ctype (slice (lit ''Foo & Bar'') (p + 1) (p + 2))
                            \<and> slice (lit ''Foo & Bar'') (p + 1) (p + 2) \<noteq> lit ''&'')
             [0..<length (lit ''Foo & Bar'')]"
    by (simp add: char_defs slice_def ascii_ctype_def ascii_isalpha_def ascii_isdigit_def
        upt_rec)
  from remove_accelerator_examples [OF c, of "lit ''Foo & Bar''"] c h show ?thesis
    by blast
qed

subsection \<open>\<^verbatim>\<open>resolve_entities\<close>\<close>




















































section \<open>Properties of the catalog\<close>

subsection \<open>The main loop of \<^verbatim>\<open>sync\<close>\<close>

lemma sync_loop_done:
  "\<not> i < nmsgs \<Longrightarrow> sync_loop r f nb oi nmsgs ms i ob fl = Inr (ms, fl)"
  by (subst sync_loop.simps) simp

lemma sync_loop_skip:
  "i < nmsgs \<Longrightarrow> i < length ms \<Longrightarrow> remove_on_sync (ms ! i) \<Longrightarrow>
   sync_loop r f nb oi nmsgs ms i ob fl = sync_loop r f nb oi nmsgs ms (i + 1) ob fl"
  by (subst sync_loop.simps) simp

lemma sync_loop_hoist:
  "i < nmsgs \<Longrightarrow> i < length ms \<Longrightarrow> hoisted nb (ms ! i) \<Longrightarrow> i < ob \<Longrightarrow>
   sync_loop r f nb oi nmsgs ms i ob fl =
     sync_loop r f nb oi nmsgs (list_insert (oi - 1) (ms ! i) (list_pop i ms)) i (ob - 1) fl"
  by (subst sync_loop.simps) (simp add: hoisted_def)

lemma sync_loop_emit:
  "i < nmsgs \<Longrightarrow> i < length ms \<Longrightarrow> \<not> remove_on_sync (ms ! i) \<Longrightarrow>
   \<not> hoisted nb (ms ! i) \<or> ob \<le> i \<Longrightarrow>
   sync_loop r f nb oi nmsgs ms i ob fl =
     (if fl @ lines_all (emit r f (ms ! i)) = [] then Inl IndexError
      else sync_loop r f nb oi nmsgs (ms[i := emit r f (ms ! i)]) (i + 1) ob
             (blank_after (fl @ lines_all (emit r f (ms ! i)))))"
  by (subst sync_loop.simps) (auto simp: hoisted_def emit_def Let_def)

lemma emit_lines_skip:
  "remove_on_sync m \<Longrightarrow> emit_lines r f (m # ms) fl = emit_lines r f ms fl"
  by simp

lemma emit_lines_emit:
  "\<not> remove_on_sync m \<Longrightarrow>
   emit_lines r f (m # ms) fl =
     (if fl @ lines_all (emit r f m) = [] then Inl IndexError
      else emit_lines r f ms (blank_after (fl @ lines_all (emit r f m))))"
  by (simp add: Let_def)

lemma emit_removed: "remove_on_sync m \<Longrightarrow> emit r f m = m"
  by (simp add: emit_def)

lemma sync_loop_rest:
  "obstop \<le> length A \<Longrightarrow> nmsgs = length A + length T \<Longrightarrow>
   sync_loop r f nb oi nmsgs (A @ T) (length A) obstop fl =
     loop_result (A @ map (emit r f) T) (emit_lines r f T fl)"
proof (induction T arbitrary: A fl)
  case Nil
  then show ?case by (simp add: sync_loop_done loop_result_def)
next
  case (Cons m T)
  have i: "length A < nmsgs" "length A < length (A @ m # T)" "(A @ m # T) ! length A = m"
    using Cons.prems by simp_all
  show ?case
  proof (cases "remove_on_sync m")
    case True
    have "sync_loop r f nb oi nmsgs (A @ m # T) (length A) obstop fl
          = sync_loop r f nb oi nmsgs ((A @ [m]) @ T) (length (A @ [m])) obstop fl"
      using sync_loop_skip [OF i(1,2), of r f nb oi obstop fl] True i(3) by simp
    also have "\<dots> = loop_result ((A @ [m]) @ map (emit r f) T) (emit_lines r f T fl)"
      by (rule Cons.IH) (use Cons.prems in simp_all)
    finally show ?thesis
      using True by (simp add: emit_removed)
  next
    case False
    have step: "sync_loop r f nb oi nmsgs (A @ m # T) (length A) obstop fl =
       (if fl @ lines_all (emit r f m) = [] then Inl IndexError
        else sync_loop r f nb oi nmsgs ((A @ [emit r f m]) @ T) (length (A @ [emit r f m])) obstop
               (blank_after (fl @ lines_all (emit r f m))))"
      using sync_loop_emit [OF i(1,2), of nb obstop r f oi fl] False i(3) Cons.prems(1) by simp
    show ?thesis
    proof (cases "fl @ lines_all (emit r f m) = []")
      case True
      then show ?thesis
        unfolding step emit_lines_emit [OF False] if_P [OF True] by (simp add: loop_result_def)
    next
      case ne: False
      have "sync_loop r f nb oi nmsgs ((A @ [emit r f m]) @ T) (length (A @ [emit r f m])) obstop
               (blank_after (fl @ lines_all (emit r f m)))
            = loop_result ((A @ [emit r f m]) @ map (emit r f) T)
                (emit_lines r f T (blank_after (fl @ lines_all (emit r f m))))"
        by (rule Cons.IH) (use Cons.prems in simp_all)
      then show ?thesis
        unfolding step emit_lines_emit [OF False] if_not_P [OF ne] by simp
    qed
  qed
qed

lemma sync_loop_front:
  "nmsgs = length A + length B + length H + length S \<Longrightarrow>
   obsins = length A + length B + length H \<Longrightarrow>
   sync_loop r f nb obsins nmsgs (A @ B @ H @ S) (length A) (length A + length B) fl =
     loop_result
       (A @ map (emit r f) (filter (\<lambda>m. \<not> hoisted nb m) B @ H @ filter (hoisted nb) B @ S))
       (emit_lines r f (filter (\<lambda>m. \<not> hoisted nb m) B @ H @ filter (hoisted nb) B @ S) fl)"
proof (induction B arbitrary: A H fl)
  case Nil
  have "sync_loop r f nb obsins nmsgs (A @ (H @ S)) (length A) (length A) fl =
          loop_result (A @ map (emit r f) (H @ S)) (emit_lines r f (H @ S) fl)"
    by (rule sync_loop_rest) (use Nil in simp_all)
  then show ?case by simp
next
  case (Cons b B)
  let ?keep = "filter (\<lambda>m. \<not> hoisted nb m) B"
  let ?hoist = "filter (hoisted nb) B"
  let ?ms = "A @ (b # B) @ H @ S"
  have i: "length A < nmsgs" "length A < length ?ms" "?ms ! length A = b"
    using Cons.prems by simp_all
  show ?case
  proof (cases "remove_on_sync b")
    case True
    then have nh: "\<not> hoisted nb b"
      by (simp add: hoisted_def)
    have "sync_loop r f nb obsins nmsgs ?ms (length A) (length A + length (b # B)) fl
          = sync_loop r f nb obsins nmsgs ((A @ [b]) @ B @ H @ S) (length (A @ [b]))
              (length (A @ [b]) + length B) fl"
      using sync_loop_skip [OF i(1,2), of r f nb obsins "length A + length (b # B)" fl] True i(3)
      by simp
    also have "\<dots> = loop_result ((A @ [b]) @ map (emit r f) (?keep @ H @ ?hoist @ S))
                        (emit_lines r f (?keep @ H @ ?hoist @ S) fl)"
      by (rule Cons.IH) (use Cons.prems in simp_all)
    finally show ?thesis
      using nh True by (simp add: emit_removed)
  next
    case False
    show ?thesis
    proof (cases "hoisted nb b")
      case True
      have pop: "list_insert (obsins - 1) b (list_pop (length A) ?ms) = A @ B @ (H @ [b]) @ S"
        using Cons.prems by (simp add: list_insert_def list_pop_def)
      have "sync_loop r f nb obsins nmsgs ?ms (length A) (length A + length (b # B)) fl
            = sync_loop r f nb obsins nmsgs (A @ B @ (H @ [b]) @ S) (length A)
                (length A + length B) fl"
        using sync_loop_hoist [OF i(1,2), of nb "length A + length (b # B)" r f obsins fl]
          True i(3) pop by simp
      also have "\<dots> = loop_result (A @ map (emit r f) (?keep @ (H @ [b]) @ ?hoist @ S))
                        (emit_lines r f (?keep @ (H @ [b]) @ ?hoist @ S) fl)"
        by (rule Cons.IH) (use Cons.prems in simp_all)
      finally show ?thesis using True by simp
    next
      case nh: False
      have step: "sync_loop r f nb obsins nmsgs ?ms (length A) (length A + length (b # B)) fl =
         (if fl @ lines_all (emit r f b) = [] then Inl IndexError
          else sync_loop r f nb obsins nmsgs ((A @ [emit r f b]) @ B @ H @ S)
                 (length (A @ [emit r f b])) (length (A @ [emit r f b]) + length B)
                 (blank_after (fl @ lines_all (emit r f b))))"
        using sync_loop_emit [OF i(1,2), of nb "length A + length (b # B)" r f obsins fl]
          False nh i(3) by simp
      have order: "filter (\<lambda>m. \<not> hoisted nb m) (b # B) @ H @ filter (hoisted nb) (b # B) @ S
                   = b # ?keep @ H @ ?hoist @ S"
        using nh by simp
      show ?thesis
      proof (cases "fl @ lines_all (emit r f b) = []")
        case True
        then show ?thesis
          unfolding step order emit_lines_emit [OF False] if_P [OF True]
          by (simp add: loop_result_def)
      next
        case ne: False
        have "sync_loop r f nb obsins nmsgs ((A @ [emit r f b]) @ B @ H @ S)
                 (length (A @ [emit r f b])) (length (A @ [emit r f b]) + length B)
                 (blank_after (fl @ lines_all (emit r f b)))
              = loop_result ((A @ [emit r f b]) @ map (emit r f) (?keep @ H @ ?hoist @ S))
                  (emit_lines r f (?keep @ H @ ?hoist @ S)
                     (blank_after (fl @ lines_all (emit r f b))))"
          by (rule Cons.IH) (use Cons.prems in simp_all)
        then show ?thesis
          unfolding step order emit_lines_emit [OF False] if_not_P [OF ne] by simp
      qed
    qed
  qed
qed

lemma obstop_from_le: "obstop_from ms k \<le> k"
  by (induction k) auto

lemma sync_loop_order:
  "sync_loop r f nb (obstop_from ms (length ms)) (length ms) ms 0 (obstop_from ms (length ms)) fl =
     loop_result (map (emit r f) (sync_order nb ms)) (emit_lines r f (sync_order nb ms) fl)"
proof -
  define k where "k = obstop_from ms (length ms)"
  have k: "k \<le> length ms"
    unfolding k_def by (rule obstop_from_le)
  have "sync_loop r f nb k (length ms) ([] @ take k ms @ [] @ drop k ms) (length ([] :: 'a message_scheme list))
          (length ([] :: 'a message_scheme list) + length (take k ms)) fl =
     loop_result
       ([] @ map (emit r f) (filter (\<lambda>m. \<not> hoisted nb m) (take k ms) @ [] @ filter (hoisted nb) (take k ms) @ drop k ms))
       (emit_lines r f (filter (\<lambda>m. \<not> hoisted nb m) (take k ms) @ [] @ filter (hoisted nb) (take k ms) @ drop k ms) fl)"
    by (rule sync_loop_front) (use k in simp_all)
  then show ?thesis
    using k by (simp add: sync_order_def k_def [symmetric] min_absorb2)
qed

subsection \<open>The frontier and the order\<close>

lemma obstop_from_obsolete:
  "k \<le> length ms \<Longrightarrow> obstop_from ms k \<le> j \<Longrightarrow> j < k \<Longrightarrow> obsolete (ms ! j)"
proof (induction k)
  case 0
  then show ?case by simp
next
  case (Suc k)
  show ?case
  proof (cases "obsolete (ms ! k)")
    case True
    with Suc show ?thesis
      by (cases "j = k") auto
  next
    case False
    with Suc.prems show ?thesis by simp
  qed
qed

lemma frontier_le: "frontier ms \<le> length ms"
  by (simp add: frontier_def obstop_from_le)

lemma frontier_tail: "m \<in> set (drop (frontier ms) ms) \<Longrightarrow> obsolete m"
proof -
  assume "m \<in> set (drop (frontier ms) ms)"
  then obtain j where j: "j < length (drop (frontier ms) ms)" "drop (frontier ms) ms ! j = m"
    by (auto simp: in_set_conv_nth)
  then have "obsolete (ms ! (frontier ms + j))"
    using obstop_from_obsolete [of "length ms" ms "frontier ms + j"]
    by (simp add: frontier_def)
  with j show ?thesis
    using frontier_le [of ms] by simp
qed

lemma obstop_from_head: "0 < obstop_from ms k \<Longrightarrow> \<not> obsolete (ms ! (obstop_from ms k - 1))"
  by (induction k) auto

lemma frontier_head: "0 < frontier ms \<Longrightarrow> \<not> obsolete (ms ! (frontier ms - 1))"
  unfolding frontier_def by (rule obstop_from_head)

lemma obstop_from_Cons:
  "\<not> obsolete h \<Longrightarrow> obstop_from (h # ms) (Suc k) = Suc (obstop_from ms k)"
  by (induction k) auto

lemma sync_order_Cons:
  assumes "\<not> obsolete h"
  shows "sync_order nb (h # ms) = h # sync_order nb ms"
proof -
  have "obstop_from (h # ms) (length (h # ms)) = Suc (obstop_from ms (length ms))"
    using obstop_from_Cons [OF assms, of ms "length ms"] by (simp del: obstop_from.simps)
  moreover have "\<not> hoisted nb h"
    using assms by (simp add: hoisted_def)
  ultimately show ?thesis
    by (simp add: sync_order_def Let_def del: obstop_from.simps)
qed

lemma emit_flags [simp]:
  "obsolete (emit r f m) = obsolete m" "remove_on_sync (emit r f m) = remove_on_sync m"
  by (auto simp: emit_def to_lines_def split: prod.splits)

lemma kept_sync_order:
  "filter (\<lambda>m. \<not> remove_on_sync m) (sync_order False ms)
     = filter (\<lambda>m. \<not> remove_on_sync m) (hoist_order ms)"
proof -
  have a: "filter (\<lambda>x. \<not> hoisted False x \<and> \<not> remove_on_sync x) xs
           = filter (\<lambda>x. \<not> obsolete x \<and> \<not> remove_on_sync x) xs" for xs :: "'a message_scheme list"
    by (rule filter_cong) (auto simp: hoisted_def)
  have b: "filter (\<lambda>x. hoisted False x \<and> \<not> remove_on_sync x) xs
           = filter (\<lambda>x. obsolete x \<and> \<not> remove_on_sync x) xs" for xs :: "'a message_scheme list"
    by (rule filter_cong) (auto simp: hoisted_def)
  show ?thesis
    by (simp add: sync_order_def hoist_order_def frontier_def Let_def a b)
qed

lemma partition_sorted:
  "\<forall>m \<in> set L. \<not> obsolete m \<Longrightarrow> \<forall>m \<in> set R. obsolete m \<Longrightarrow>
   filter (\<lambda>m. \<not> remove_on_sync m \<and> \<not> obsolete m) (L @ R)
   @ filter (\<lambda>m. \<not> remove_on_sync m \<and> obsolete m) (L @ R)
   = filter (\<lambda>m. \<not> remove_on_sync m) (L @ R)"
proof -
  assume L: "\<forall>m \<in> set L. \<not> obsolete m" and R: "\<forall>m \<in> set R. obsolete m"
  have "filter (\<lambda>m. \<not> remove_on_sync m \<and> \<not> obsolete m) L = filter (\<lambda>m. \<not> remove_on_sync m) L"
    using L by (intro filter_cong) auto
  moreover have "filter (\<lambda>m. \<not> remove_on_sync m \<and> \<not> obsolete m) R = []"
    using R by (auto simp: filter_empty_conv)
  moreover have "filter (\<lambda>m. \<not> remove_on_sync m \<and> obsolete m) L = []"
    using L by (auto simp: filter_empty_conv)
  moreover have "filter (\<lambda>m. \<not> remove_on_sync m \<and> obsolete m) R = filter (\<lambda>m. \<not> remove_on_sync m) R"
    using R by (intro filter_cong) auto
  ultimately show ?thesis by simp
qed

lemma partition_hoist_order:
  "filter (\<lambda>m. \<not> remove_on_sync m \<and> \<not> obsolete m) (hoist_order ms)
   @ filter (\<lambda>m. \<not> remove_on_sync m \<and> obsolete m) (hoist_order ms)
   = filter (\<lambda>m. \<not> remove_on_sync m) (hoist_order ms)"
proof -
  have "\<forall>m \<in> set (filter obsolete (take (frontier ms) ms) @ drop (frontier ms) ms). obsolete m"
    using frontier_tail by auto
  from partition_sorted [OF _ this, of "filter (\<lambda>m. \<not> obsolete m) (take (frontier ms) ms)"]
  show ?thesis
    by (simp add: hoist_order_def)
qed

lemma emit_lines_kept:
  "emit_lines r f xs fl = emit_lines r f (filter (\<lambda>m. \<not> remove_on_sync m) xs) fl"
  by (induction xs arbitrary: fl) (auto simp: Let_def)

subsection \<open>\<^verbatim>\<open>sync\<close> as a whole\<close>

lemma loop_result_Inr:
  "loop_result ms res = Inr (ms1, fl) \<Longrightarrow> ms1 = ms \<and> res = Inr fl"
  by (cases res) (auto simp: loop_result_def)

lemma sync_write_parts:
  assumes run: "sync_write r enc f nb c = Inr (b, out, c')"
  defines "ms0 \<equiv> (header c)\<lparr>remove_on_sync := False\<rparr> # messages c"
  shows "\<exists>ms1 fl0 enclines.
           sync_loop r f nb (obstop_from ms0 (length ms0)) (length ms0) ms0 0
             (obstop_from ms0 (length ms0)) [] = Inr (ms1, fl0)
           \<and> encode_lines enc (add_tail (tail c) fl0) = Some enclines
           \<and> b \<and> out = Some enclines
           \<and> header c' = (hd ms1)\<lparr>modcount := 0, committed := True\<rparr>
           \<and> messages c' = map (\<lambda>m. m\<lparr>modcount := 0, committed := True\<rparr>)
                 (filter (\<lambda>m. \<not> remove_on_sync m \<and> \<not> obsolete m) (tl ms1)
                  @ filter (\<lambda>m. \<not> remove_on_sync m \<and> obsolete m) (tl ms1))"
proof -
  obtain ms1 fl0 where loop:
    "sync_loop r f nb (obstop_from ms0 (length ms0)) (length ms0) ms0 0
       (obstop_from ms0 (length ms0)) [] = Inr (ms1, fl0)"
    using run unfolding sync_write_def ms0_def Let_def
    by (cases "sync_loop r f nb
          (obstop_from ((header c)\<lparr>remove_on_sync := False\<rparr> # messages c)
             (length ((header c)\<lparr>remove_on_sync := False\<rparr> # messages c)))
          (length ((header c)\<lparr>remove_on_sync := False\<rparr> # messages c))
          ((header c)\<lparr>remove_on_sync := False\<rparr> # messages c) 0
          (obstop_from ((header c)\<lparr>remove_on_sync := False\<rparr> # messages c)
             (length ((header c)\<lparr>remove_on_sync := False\<rparr> # messages c))) []")
       (auto simp del: obstop_from.simps)
  obtain enclines where encd: "encode_lines enc (add_tail (tail c) fl0) = Some enclines"
    using run loop unfolding sync_write_def ms0_def Let_def
    by (cases "encode_lines enc (add_tail (tail c) fl0)") (auto simp del: obstop_from.simps)
  have res: "Inr (b, out, c') = Inr (True, Some enclines,
      (sync_map (c\<lparr>header := hd ms1, messages := tl ms1\<rparr>))
        \<lparr>header := (header (sync_map (c\<lparr>header := hd ms1, messages := tl ms1\<rparr>)))\<lparr>modcount := 0\<rparr>,
         messages := map (\<lambda>m. m\<lparr>modcount := 0\<rparr>)
                       (messages (sync_map (c\<lparr>header := hd ms1, messages := tl ms1\<rparr>))),
         seq_modcount := 0,
         created_from_scratch := False,
         header := (header (sync_map (c\<lparr>header := hd ms1, messages := tl ms1\<rparr>)))
                     \<lparr>modcount := 0, committed := True\<rparr>,
         messages := map (\<lambda>m. m\<lparr>committed := True\<rparr>)
                       (map (\<lambda>m. m\<lparr>modcount := 0\<rparr>)
                          (messages (sync_map (c\<lparr>header := hd ms1, messages := tl ms1\<rparr>))))\<rparr>)"
    using run loop encd unfolding sync_write_def ms0_def Let_def
    by (simp del: obstop_from.simps)
  then have "b" "out = Some enclines"
    and "header c' = (hd ms1)\<lparr>modcount := 0, committed := True\<rparr>"
    and "messages c' = map (\<lambda>m. m\<lparr>modcount := 0, committed := True\<rparr>)
                 (filter (\<lambda>m. \<not> remove_on_sync m \<and> \<not> obsolete m) (tl ms1)
                  @ filter (\<lambda>m. \<not> remove_on_sync m \<and> obsolete m) (tl ms1))"
    by (simp_all add: sync_map_def Let_def o_def)
  with loop encd show ?thesis by blast
qed

lemma sync_write_characterised:
  assumes run: "sync_write r enc f nb c = Inr (b, out, c')"
      and hdr: "\<not> obsolete (header c)"
  shows "\<exists>fl0. emit_lines r f ((header c)\<lparr>remove_on_sync := False\<rparr> # sync_order nb (messages c)) []
                 = Inr fl0
           \<and> out = encode_lines enc (add_tail (tail c) fl0) \<and> out \<noteq> None \<and> b
           \<and> messages c' =
               map (finish r f)
                 (filter (\<lambda>m. \<not> remove_on_sync m \<and> \<not> obsolete m) (sync_order nb (messages c))
                  @ filter (\<lambda>m. \<not> remove_on_sync m \<and> obsolete m) (sync_order nb (messages c)))"
proof -
  define h0 where "h0 = (header c)\<lparr>remove_on_sync := False\<rparr>"
  define ms0 where "ms0 = h0 # messages c"
  have h0: "\<not> obsolete h0"
    using hdr by (simp add: h0_def)
  from sync_write_parts [OF run] obtain ms1 fl0 enclines where
    loop: "sync_loop r f nb (obstop_from ms0 (length ms0)) (length ms0) ms0 0
             (obstop_from ms0 (length ms0)) [] = Inr (ms1, fl0)"
    and encd: "encode_lines enc (add_tail (tail c) fl0) = Some enclines"
    and res: "b" "out = Some enclines"
    and msgs: "messages c' = map (\<lambda>m. m\<lparr>modcount := 0, committed := True\<rparr>)
                 (filter (\<lambda>m. \<not> remove_on_sync m \<and> \<not> obsolete m) (tl ms1)
                  @ filter (\<lambda>m. \<not> remove_on_sync m \<and> obsolete m) (tl ms1))"
    unfolding ms0_def h0_def by blast
  from loop have "loop_result (map (emit r f) (sync_order nb ms0))
                    (emit_lines r f (sync_order nb ms0) []) = Inr (ms1, fl0)"
    by (simp only: sync_loop_order)
  from loop_result_Inr [OF this]
  have ms1: "ms1 = map (emit r f) (sync_order nb ms0)"
    and lines: "emit_lines r f (sync_order nb ms0) [] = Inr fl0"
    by simp_all
  have order: "sync_order nb ms0 = h0 # sync_order nb (messages c)"
    unfolding ms0_def by (rule sync_order_Cons [OF h0])
  have tl1: "tl ms1 = map (emit r f) (sync_order nb (messages c))"
    by (simp add: ms1 order)
  have fm: "filter P (map (emit r f) xs) = map (emit r f) (filter (\<lambda>m. P (emit r f m)) xs)"
    for P and xs :: "'a message_scheme list"
    by (simp add: filter_map o_def)
  have "messages c' =
          map (finish r f)
            (filter (\<lambda>m. \<not> remove_on_sync m \<and> \<not> obsolete m) (sync_order nb (messages c))
             @ filter (\<lambda>m. \<not> remove_on_sync m \<and> obsolete m) (sync_order nb (messages c)))"
    unfolding msgs tl1 by (simp add: fm finish_def o_def)
  with lines order encd res show ?thesis
    unfolding h0_def by simp
qed

lemma sync_to_write:
  assumes run: "sync ct r enc n force nb fp c = Inr (True, out, c')"
  shows "\<exists>c1. sync_write r enc (force \<or> \<not> monitored c) nb c1 = Inr (True, out, c')
           \<and> messages c1 = fitted fp n c \<and> header c1 = header c \<and> tail c1 = tail c"
  using run
  by (cases fp) (auto simp: sync_def fitted_def Let_def split: if_splits)

text \<open>
  C3. When \<^verbatim>\<open>sync\<close> with \<^verbatim>\<open>noobsend\<close> off goes on to write (it returns \<^verbatim>\<open>True\<close>), and
  the header is not obsolete: the messages from the frontier on are all obsolete and the
  one before the frontier is not; the catalog is left with every obsolete message that
  stood before the frontier moved up to it, in the order they had, the others before them
  in the order they had (the messages marked for removal dropped, every message left as
  its rendering leaves it); and the lines written are those of the header and of the
  messages in that order.
\<close>

theorem sync_hoists_obsolete:
  assumes run: "sync ct r enc n force False fp c = Inr (True, out, c')"
      and hdr: "\<not> obsolete (header c)"
  shows "(\<forall>m \<in> set (drop (frontier (fitted fp n c)) (fitted fp n c)). obsolete m)
         \<and> (0 < frontier (fitted fp n c)
              \<longrightarrow> \<not> obsolete (fitted fp n c ! (frontier (fitted fp n c) - 1)))
         \<and> messages c' =
             map (finish r (force \<or> \<not> monitored c))
               (filter (\<lambda>m. \<not> remove_on_sync m) (hoist_order (fitted fp n c)))
         \<and> (\<exists>flines.
               emit_lines r (force \<or> \<not> monitored c)
                 ((header c)\<lparr>remove_on_sync := False\<rparr>
                  # filter (\<lambda>m. \<not> remove_on_sync m) (hoist_order (fitted fp n c))) [] = Inr flines
               \<and> out = encode_lines enc (add_tail (tail c) flines) \<and> out \<noteq> None)"
proof -
  let ?ms = "fitted fp n c"
  let ?f = "force \<or> \<not> monitored c"
  let ?h0 = "(header c)\<lparr>remove_on_sync := False\<rparr>"
  from sync_to_write [OF run] obtain c1 where
    w: "sync_write r enc ?f False c1 = Inr (True, out, c')"
    and c1: "messages c1 = ?ms" "header c1 = header c" "tail c1 = tail c"
    by blast
  from sync_write_characterised [OF w] hdr c1 obtain fl0 where
    lines: "emit_lines r ?f (?h0 # sync_order False ?ms) [] = Inr fl0"
    and out: "out = encode_lines enc (add_tail (tail c) fl0)" "out \<noteq> None"
    and msgs: "messages c' =
               map (finish r ?f)
                 (filter (\<lambda>m. \<not> remove_on_sync m \<and> \<not> obsolete m) (sync_order False ?ms)
                  @ filter (\<lambda>m. \<not> remove_on_sync m \<and> obsolete m) (sync_order False ?ms))"
    by auto
  have split: "filter (\<lambda>m. \<not> remove_on_sync m \<and> P m) xs
               = filter P (filter (\<lambda>m. \<not> remove_on_sync m) xs)"
    for P and xs :: "'a message_scheme list"
    by (simp add: conj_commute)
  have "filter (\<lambda>m. \<not> remove_on_sync m \<and> \<not> obsolete m) (sync_order False ?ms)
          @ filter (\<lambda>m. \<not> remove_on_sync m \<and> obsolete m) (sync_order False ?ms)
        = filter (\<lambda>m. \<not> remove_on_sync m \<and> \<not> obsolete m) (hoist_order ?ms)
          @ filter (\<lambda>m. \<not> remove_on_sync m \<and> obsolete m) (hoist_order ?ms)"
    unfolding split [of "\<lambda>m. \<not> obsolete m"] split [of obsolete] kept_sync_order ..
  also note partition_hoist_order
  finally have m': "messages c' = map (finish r ?f) (filter (\<lambda>m. \<not> remove_on_sync m) (hoist_order ?ms))"
    using msgs by simp
  have "emit_lines r ?f (?h0 # sync_order False ?ms) []
        = emit_lines r ?f (filter (\<lambda>m. \<not> remove_on_sync m) (?h0 # sync_order False ?ms)) []"
    by (rule emit_lines_kept)
  also have "filter (\<lambda>m. \<not> remove_on_sync m) (?h0 # sync_order False ?ms)
             = ?h0 # filter (\<lambda>m. \<not> remove_on_sync m) (hoist_order ?ms)"
    by (simp add: kept_sync_order)
  finally have l': "emit_lines r ?f (?h0 # filter (\<lambda>m. \<not> remove_on_sync m) (hoist_order ?ms)) [] = Inr fl0"
    using lines by simp
  have t: "\<forall>m \<in> set (drop (frontier ?ms) ?ms). obsolete m"
    using frontier_tail by blast
  have h: "0 < frontier ?ms \<longrightarrow> \<not> obsolete (?ms ! (frontier ?ms - 1))"
    using frontier_head by blast
  from t h m' l' out show ?thesis by blast
qed

subsection \<open>Reuse of the cached lines\<close>







subsection \<open>Examples\<close>

lemmas catalog_example_defs =
  cat_three_def cat_two_def po_three_def po_two_def po_header_def entry_def

lemmas sync_eval_defs =
  sync_def sync_write_def cat_modified_def sync_loop.simps to_lines_def list_insert_def
  list_pop_def render_msgid_def blank_after_def newline_def add_tail_def sync_map_def Let_def

text \<open>
  The catalog loaded from a header and \<^verbatim>\<open>M1\<close>, \<^verbatim>\<open>M2\<close> (obsolete), \<^verbatim>\<open>M3\<close>, monitored as
  by default: \<^verbatim>\<open>sync()\<close> returns \<^verbatim>\<open>False\<close> at the guard and the order stays \<^verbatim>\<open>M1\<close>,
  \<^verbatim>\<open>M2\<close>, \<^verbatim>\<open>M3\<close>.
\<close>

theorem sync_unmodified_order_counterexample:
  "catalog_from_parse (lit ''x.po'') True 0 po_header po_three None = Inr cat_three
   \<and> map msgid (messages cat_three) = [''M1'', ''M2'', ''M3'']
   \<and> map obsolete (messages cat_three) = [False, True, False]
   \<and> sync ascii_ctype render_msgid Some 1 False False False cat_three = Inr (False, None, cat_three)"
  by (simp add: catalog_from_parse_def pick_entries_def fresh_def falsy_def
      catalog_example_defs sync_eval_defs char_defs ascii_defs)

text \<open>
  The same catalog under \<^verbatim>\<open>sync(force=True)\<close>: the order becomes \<^verbatim>\<open>M1\<close>, \<^verbatim>\<open>M3\<close>,
  \<^verbatim>\<open>M2\<close>.
\<close>

theorem sync_hoists_obsolete_witness:
  "\<exists>out c'. sync ascii_ctype render_msgid Some 1 True False False cat_three = Inr (True, out, c')
     \<and> map msgid (messages c') = [''M1'', ''M3'', ''M2'']"
proof -
  obtain out c' where run: "sync ascii_ctype render_msgid Some 1 True False False cat_three = Inr (True, out, c')"
    by (simp add: catalog_example_defs sync_eval_defs char_defs ascii_defs)
  have hdr: "\<not> obsolete (header cat_three)"
    by (simp add: catalog_example_defs)
  from sync_hoists_obsolete [OF run hdr]
  have "messages c' =
          map (finish render_msgid (True \<or> \<not> monitored cat_three))
            (filter (\<lambda>m. \<not> remove_on_sync m) (hoist_order (fitted False 1 cat_three)))"
    by blast
  then have "map msgid (messages c') = [''M1'', ''M3'', ''M2'']"
    by (simp add: hoist_order_def frontier_def fitted_def finish_def emit_def to_lines_def
        render_msgid_def catalog_example_defs eval_nat_numeral)
  with run show ?thesis
    by (intro exI [of _ out] exI [of _ c'] conjI)
qed



end
